theory Spec2Isabelle
  imports Complex_Main "HOL-Library.Sublist" "HOL-Library.Log_Nat"
begin

section \<open>JavaScript values\<close>

text \<open>
  A JavaScript number is either finite or one of NaN, Infinity, -Infinity. The three
  non-finite values are one constructor: \<open>Number.isFinite\<close> is false on each of them and
  \<open>JSON.stringify\<close> writes each of them as \<open>null\<close>. A finite number is the rational it
  denotes. The arithmetic of the server's adapters rounds every result to the nearest
  double (\<open>fl\<close> below); the client's two formatting helpers are evaluated in exact
  arithmetic.
\<close>

datatype jsnum = Fin rat | NotFinite

text \<open>The values the adapters build and JSON carries. \<open>JUndefined\<close> is the value of a
  missing property; object literals are association lists in the order of the source.\<close>

datatype json =
    JUndefined
  | JNull
  | JBool bool
  | JNum jsnum
  | JStr string
  | JArr "json list"
  | JObj "(string \<times> json) list"

text \<open>A thrown value: an \<open>Error\<close> with its message. A call that may throw, or a promise
  that may reject, returns \<open>exn + 'a\<close> with \<open>Inl\<close> for the exception.\<close>

datatype exn = Error (message: string)

text \<open>The keys of an object, in order; \<open>k in obj\<close>.\<close>

fun keys :: "json \<Rightarrow> string list" where
  "keys (JObj kvs) = map fst kvs"
| "keys _ = []"

definition has_key :: "string \<Rightarrow> json \<Rightarrow> bool" where
  "has_key k v = (k \<in> set (keys v))"

text \<open>Property access \<open>v.k\<close>: a TypeError on \<open>null\<close> and \<open>undefined\<close>, the stored value on an
  object that has the key, \<open>undefined\<close> otherwise (none of the keys read by this program
  is a property of a primitive or of an array).\<close>

fun get_prop :: "json \<Rightarrow> string \<Rightarrow> exn + json" where
  "get_prop JUndefined k =
     Inl (Error (''Cannot read properties of undefined (reading '' @ [CHR 0x27] @ k @ [CHR 0x27] @ '')''))"
| "get_prop JNull k =
     Inl (Error (''Cannot read properties of null (reading '' @ [CHR 0x27] @ k @ [CHR 0x27] @ '')''))"
| "get_prop (JObj kvs) k = Inr (case map_of kvs k of Some v \<Rightarrow> v | None \<Rightarrow> JUndefined)"
| "get_prop _ k = Inr JUndefined"

text \<open>Truthiness, as \<open>||\<close> and \<open>if\<close> test it. The only numbers tested come from JSON
  text, where a number that is not finite is an infinity (truthy), never NaN.\<close>

fun truthy :: "json \<Rightarrow> bool" where
  "truthy JUndefined = False"
| "truthy JNull = False"
| "truthy (JBool b) = b"
| "truthy (JNum (Fin q)) = (q \<noteq> 0)"
| "truthy (JNum NotFinite) = True"
| "truthy (JStr s) = (s \<noteq> [])"
| "truthy (JArr _) = True"
| "truthy (JObj _) = True"

section \<open>Numbers as text\<close>

definition digit_char :: "nat \<Rightarrow> char" where
  "digit_char d = ''0123456789'' ! d"

function show_nat :: "nat \<Rightarrow> string" where
  "show_nat n = (if n < 10 then [digit_char n] else show_nat (n div 10) @ [digit_char (n mod 10)])"
  by pat_completeness auto
termination
  by (relation "measure (\<lambda>n. n)") auto

declare show_nat.simps [simp del]

text \<open>The integer nearest to a non-negative \<open>x\<close>, the larger one of two: the choice
  \<open>toFixed\<close> makes after it has taken the sign off.\<close>

definition round_half_up :: "rat \<Rightarrow> int" where
  "round_half_up x = \<lfloor>x + 1 / 2\<rfloor>"

text \<open>The fraction digits of \<open>toFixed\<close>: \<open>m\<close> written with at least \<open>f\<close> digits.\<close>

definition pad_zeros :: "nat \<Rightarrow> string \<Rightarrow> string" where
  "pad_zeros f s = replicate (f - length s) (CHR ''0'') @ s"

text \<open>\<open>x.toFixed(f)\<close> for a finite \<open>x\<close>. From \<open>10^21\<close> on JavaScript switches to the
  exponent notation of \<open>String(x)\<close>, which is not modelled: \<open>None\<close>.\<close>

definition toFixed :: "nat \<Rightarrow> rat \<Rightarrow> string option" where
  "toFixed f x =
     (if \<bar>x\<bar> \<ge> 10 ^ 21 then None
      else
        let n = nat (round_half_up (\<bar>x\<bar> * 10 ^ f));
            digits =
              (if f = 0 then show_nat n
               else show_nat (n div 10 ^ f) @ ''.'' @ pad_zeros f (show_nat (n mod 10 ^ f)))
        in Some ((if x < 0 then ''-'' else '''') @ digits))"

text \<open>\<open>String(n)\<close> for an integer \<open>n\<close>, as a template literal writes it; exponent
  notation from \<open>10^21\<close> on is not modelled: \<open>None\<close>.\<close>

definition show_integer :: "int \<Rightarrow> string option" where
  "show_integer n =
     (if \<bar>n\<bar> \<ge> 10 ^ 21 then None
      else Some ((if n < 0 then ''-'' else '''') @ show_nat (nat \<bar>n\<bar>)))"

text \<open>The remainder \<open>x % y\<close> of finite numbers with \<open>y \<noteq> 0\<close>: it has the sign of \<open>x\<close>.\<close>

definition trunc :: "rat \<Rightarrow> int" where
  "trunc q = (if q \<ge> 0 then \<lfloor>q\<rfloor> else \<lceil>q\<rceil>)"

definition js_rem :: "rat \<Rightarrow> rat \<Rightarrow> rat" where
  "js_rem x y = x - y * of_int (trunc (x / y))"

section \<open>Double precision arithmetic\<close>

text \<open>The binade of a positive rational \<open>y\<close>: the integer \<open>e\<close> with
  \<open>2^e \<le> y < 2^(e+1)\<close>, from the bit lengths of numerator and denominator.\<close>

definition binade :: "rat \<Rightarrow> int" where
  "binade y =
     (case quotient_of y of
        (a, b) \<Rightarrow> let k = bitlen a - bitlen b in if 2 powi k \<le> y then k else k - 1)"

text \<open>The nearest integer, the even one of two.\<close>

definition round_half_even :: "rat \<Rightarrow> int" where
  "round_half_even x =
     (let f = \<lfloor>x\<rfloor>; r = x - of_int f
      in if r < 1 / 2 then f else if 1 / 2 < r then f + 1 else if even f then f else f + 1)"

text \<open>
  The IEEE 754 binary64 value of an exact result \<open>y\<close>, rounded to nearest, ties to even:
  a multiple of \<open>2^(e-52)\<close> where \<open>e\<close> is the binade of \<open>\<bar>y\<bar>\<close> and at least \<open>-1022\<close>
  (below \<open>2^-1022\<close> the spacing of the subnormal numbers stays \<open>2^-1074\<close>); a result that
  rounds to \<open>2^1024\<close> or more is an infinity. The two zeros are one value.
\<close>

definition fl :: "rat \<Rightarrow> jsnum" where
  "fl y =
     (if y = 0 then Fin 0
      else
        let e = max (binade \<bar>y\<bar>) (- 1022);
            ulp = 2 powi (e - 52);
            m = round_half_even (\<bar>y\<bar> / ulp)
        in if 1023 < e \<or> (e = 1023 \<and> m = 2 ^ 53) then NotFinite
           else Fin (sgn y * of_int m * ulp))"

text \<open>\<open>a * b\<close> and \<open>a - b\<close>: with an operand that is not finite the result is not finite
  (an infinity or NaN).\<close>

fun js_mul :: "jsnum \<Rightarrow> jsnum \<Rightarrow> jsnum" where
  "js_mul (Fin a) (Fin b) = fl (a * b)"
| "js_mul _ _ = NotFinite"

fun js_sub :: "jsnum \<Rightarrow> jsnum \<Rightarrow> jsnum" where
  "js_sub (Fin a) (Fin b) = fl (a - b)"
| "js_sub _ _ = NotFinite"

text \<open>\<open>a / b\<close>: dividing a finite number by zero gives NaN or an infinity, and so does a
  dividend that is not finite. A divisor that is not finite is, in the one place where
  this program can meet it (line 33, \<open>sizeBytes\<close>), the infinity of a product that
  overflowed and never NaN: a finite number divided by it is zero.\<close>

fun js_div :: "jsnum \<Rightarrow> jsnum \<Rightarrow> jsnum" where
  "js_div (Fin a) (Fin b) = (if b = 0 then NotFinite else fl (a / b))"
| "js_div (Fin a) NotFinite = Fin 0"
| "js_div NotFinite b = NotFinite"

section \<open>The client's formatting helpers (client/main.js)\<close>

definition units :: "string list" where
  "units = [''B'', ''KB'', ''MB'', ''GB'', ''TB'']"

text \<open>The loop of \<open>formatBytes\<close>: divide by 1024 while the value is at least 1024 and a
  larger unit is left.\<close>

function scale_bytes :: "rat \<Rightarrow> nat \<Rightarrow> rat \<times> nat" where
  "scale_bytes v unitIndex =
     (if v \<ge> 1024 \<and> unitIndex < length units - 1
      then scale_bytes (v / 1024) (unitIndex + 1)
      else (v, unitIndex))"
  by pat_completeness auto
termination
  by (relation "measure (\<lambda>(v, i). length units - 1 - i)") auto

declare scale_bytes.simps [simp del]

definition formatBytes :: "jsnum \<Rightarrow> string option" where
  "formatBytes bytes =
     (case bytes of
        NotFinite \<Rightarrow> Some ''N/A''
      | Fin b \<Rightarrow>
          (case scale_bytes b 0 of
             (v, unitIndex) \<Rightarrow>
               (case toFixed 1 v of
                  None \<Rightarrow> None
                | Some s \<Rightarrow> Some (s @ '' '' @ units ! unitIndex))))"

text \<open>\<open>parts.join(' ')\<close>.\<close>

fun join_with :: "string \<Rightarrow> string list \<Rightarrow> string" where
  "join_with sep [] = []"
| "join_with sep [p] = p"
| "join_with sep (p # q # ps) = p @ sep @ join_with sep (q # ps)"

text \<open>One entry of \<open>parts\<close>: the number and its unit letter; \<open>if (n)\<close> skips zero.\<close>

definition part :: "int \<Rightarrow> string \<Rightarrow> string list option" where
  "part n u = (if n = 0 then Some [] else map_option (\<lambda>s. [s @ u]) (show_integer n))"

definition formatDuration :: "jsnum \<Rightarrow> string option" where
  "formatDuration seconds =
     (case seconds of
        NotFinite \<Rightarrow> Some ''Unknown''
      | Fin s \<Rightarrow>
          (let days = \<lfloor>s / 86400\<rfloor>;
               hours = \<lfloor>js_rem s 86400 / 3600\<rfloor>;
               minutes = \<lfloor>js_rem s 3600 / 60\<rfloor>;
               secs = \<lfloor>js_rem s 60\<rfloor>
           in case (part days ''d'', part hours ''h'', part minutes ''m'', show_integer secs) of
                (Some d, Some h, Some m, Some sc) \<Rightarrow> Some (join_with '' '' (d @ h @ m @ [sc @ ''s'']))
              | _ \<Rightarrow> None))"

section \<open>Configuration and the outside world (server/src/index.js)\<close>

text \<open>The constants read from the environment at start-up (lines 13 to 17), and the
  directory of the server's source file, \<open>__dirname\<close>.\<close>

record config =
  server_dirname :: string
  DEFAULT_GITHUB_USER :: string
  GITHUB_TOKEN :: string
  WEATHER_LAT :: string
  WEATHER_LON :: string

text \<open>What \<open>fetch\<close> is called with: the string given to \<open>new URL\<close>, the search
  parameters set on it, and the request headers.\<close>

record request =
  url :: string
  searchParams :: "(string \<times> string) list"
  req_headers :: "(string \<times> string) list"

text \<open>What a fulfilled \<open>fetch\<close> gives: the status, and what \<open>response.text()\<close> and
  \<open>response.json()\<close> settle to (either may reject: a broken connection, a body that is
  no JSON).\<close>

datatype fetch_response =
  Response (resp_status: nat) (resp_text: "exn + string") (resp_json: "exn + json")

definition response_ok :: "fetch_response \<Rightarrow> bool" where
  "response_ok r = (200 \<le> resp_status r \<and> resp_status r \<le> 299)"

datatype fs_error = ENOENT | OtherFsError

text \<open>
  Everything the server observes outside itself, fixed for the time of one request:
  the outcome of the \<open>df\<close> pipeline (rejected, or its standard output), \<open>fetch\<close> (rejected
  when the remote cannot be reached, fulfilled with a response otherwise), which of the
  two remote calls rejects first in time when both reject, the \<open>os\<close> and
  \<open>process\<close> readings, the clock \<open>Date.now()\<close> in milliseconds, and \<open>fs.readFile\<close>.
  \<open>Number\<close> is the builtin that reads the text of a numeric literal: how ECMAScript reads
  signs, fractions, exponents and radix prefixes into a double is not modelled, so the
  builtin is taken as it is.
\<close>

record world =
  execAsync :: "exn + string"
  fetch :: "request \<Rightarrow> exn + fetch_response"
  weather_rejects_first :: bool
  Number :: "string \<Rightarrow> jsnum"
  loadavg :: "rat \<times> rat \<times> rat"
  cpus :: nat
  totalmem :: rat
  freemem :: rat
  platform :: string
  release :: string
  os_uptime :: rat
  process_uptime :: rat
  now :: int
  readFile :: "string \<Rightarrow> fs_error + string"

section \<open>Metric source adapters\<close>

text \<open>
  \<open>Number(x.toFixed(2))\<close>. \<open>toFixed\<close> writes the hundredth nearest to the exact value of
  the double \<open>x\<close>, the one farther from zero of two, and \<open>Number\<close> reads that decimal as
  the nearest double. From \<open>10^21\<close> on \<open>toFixed\<close> writes \<open>String(x)\<close>, which \<open>Number\<close>
  reads back as \<open>x\<close>; NaN and the infinities are written and read back as themselves.
\<close>

fun fixed2 :: "jsnum \<Rightarrow> jsnum" where
  "fixed2 NotFinite = NotFinite"
| "fixed2 (Fin x) =
     (if \<bar>x\<bar> \<ge> 10 ^ 21 then Fin x
      else fl ((if x < 0 then - 1 else 1) * of_int (round_half_up (\<bar>x\<bar> * 100)) / 100))"

text \<open>\<open>Number(((a / b) * 100).toFixed(2))\<close> (lines 33 and 51): the quotient is rounded to
  a double, then the product, and \<open>toFixed\<close> rounds that double.\<close>

definition percentage :: "jsnum \<Rightarrow> jsnum \<Rightarrow> jsnum" where
  "percentage a b = fixed2 (js_mul (js_div a b) (Fin 100))"

subsection \<open>Disk (lines 20 to 41)\<close>

text \<open>White space, for \<open>trim\<close> and \<open>\s\<close>: the ASCII characters; the white space outside
  ASCII that JavaScript also counts does not occur in the output of \<open>df\<close>.\<close>

definition is_space :: "char \<Rightarrow> bool" where
  "is_space c = (c \<in> set [CHR '' '', CHR 0x09, CHR 0x0A, CHR 0x0B, CHR 0x0C, CHR 0x0D])"

definition trim :: "string \<Rightarrow> string" where
  "trim s = rev (dropWhile is_space (rev (dropWhile is_space s)))"

text \<open>\<open>s.split(/\s+/)\<close>: cut at every maximal run of white space; the empty string gives
  one empty field.\<close>

function split_ws_from :: "string \<Rightarrow> string \<Rightarrow> string list" where
  "split_ws_from cur [] = [rev cur]"
| "split_ws_from cur (c # cs) =
     (if is_space c then rev cur # split_ws_from [] (dropWhile is_space cs)
      else split_ws_from (c # cur) cs)"
  by pat_completeness auto
termination
  by (relation "measure (\<lambda>(cur, s). length s)") (auto simp: le_imp_less_Suc length_dropWhile_le)

definition split_ws :: "string \<Rightarrow> string list" where
  "split_ws s = split_ws_from [] s"

text \<open>\<open>const [sizeKb, usedKb] = ...\<close>: a missing element is \<open>undefined\<close>.\<close>

fun destructure2 :: "'a list \<Rightarrow> 'a option \<times> 'a option" where
  "destructure2 [] = (None, None)"
| "destructure2 [a] = (Some a, None)"
| "destructure2 (a # b # _) = (Some a, Some b)"

text \<open>The test of line 24: both values pass \<open>Number.isFinite\<close> (which \<open>undefined\<close>
  does not).\<close>

fun both_finite :: "jsnum option \<times> jsnum option \<Rightarrow> (rat \<times> rat) option" where
  "both_finite (Some (Fin a), Some (Fin b)) = Some (a, b)"
| "both_finite _ = None"

text \<open>The body of the \<open>try\<close>.\<close>

definition disk_try :: "world \<Rightarrow> exn + json" where
  "disk_try w =
     (case execAsync w of
        Inl e \<Rightarrow> Inl e
      | Inr stdout \<Rightarrow>
          (case both_finite (destructure2 (map (Number w) (split_ws (trim stdout)))) of
             None \<Rightarrow> Inl (Error ''Invalid disk data'')
           | Some (sizeKb, usedKb) \<Rightarrow>
               (let sizeBytes = js_mul (Fin sizeKb) (Fin 1024);
                    usedBytes = js_mul (Fin usedKb) (Fin 1024)
                in Inr (JObj
                     [(''totalBytes'', JNum sizeBytes),
                      (''usedBytes'', JNum usedBytes),
                      (''freeBytes'', JNum (js_sub sizeBytes usedBytes)),
                      (''usedPercentage'', JNum (percentage usedBytes sizeBytes))]))))"

text \<open>The function is \<open>async\<close> and catches every exception of its body: it always
  fulfils, so the model returns the value.\<close>

definition getDiskUsage :: "world \<Rightarrow> json" where
  "getDiskUsage w =
     (case disk_try w of
        Inr v \<Rightarrow> v
      | Inl e \<Rightarrow>
          JObj [(''error'', JStr ''Unable to determine disk usage''),
                (''details'', JStr (message e))])"

subsection \<open>Memory, CPU, system, uptime (lines 43 to 77 and 137 to 142)\<close>

definition getMemoryStats :: "world \<Rightarrow> json" where
  "getMemoryStats w =
     (let total = Fin (totalmem w);
          free = Fin (freemem w);
          used = js_sub total free
      in JObj
           [(''totalBytes'', JNum total),
            (''usedBytes'', JNum used),
            (''freeBytes'', JNum free),
            (''usedPercentage'', JNum (percentage used total))])"

definition getCpuStats :: "world \<Rightarrow> json" where
  "getCpuStats w =
     (case loadavg w of
        (l1, l5, l15) \<Rightarrow>
          JObj
            [(''load1'', JNum (fixed2 (Fin l1))),
             (''load5'', JNum (fixed2 (Fin l5))),
             (''load15'', JNum (fixed2 (Fin l15))),
             (''cores'', JNum (Fin (of_nat (cpus w))))])"

text \<open>\<open>async\<close>, and nothing in it throws (\<open>getDiskUsage\<close> never rejects): it always
  fulfils.\<close>

definition getSystemStats :: "world \<Rightarrow> json" where
  "getSystemStats w =
     (let disk = getDiskUsage w
      in JObj
           [(''cpu'', getCpuStats w),
            (''memory'', getMemoryStats w),
            (''disk'', disk),
            (''platform'', JStr (platform w)),
            (''release'', JStr (release w))])"

definition getUptime :: "world \<Rightarrow> json" where
  "getUptime w =
     JObj [(''systemSeconds'', JNum (Fin (os_uptime w))),
           (''processSeconds'', JNum (Fin (process_uptime w)))]"

subsection \<open>GitHub (lines 79 to 108)\<close>

text \<open>\<open>username || DEFAULT_GITHUB_USER\<close>: the argument is \<open>undefined\<close> or a string, and
  the empty string is falsy.\<close>

definition github_user :: "config \<Rightarrow> string option \<Rightarrow> string" where
  "github_user cfg username =
     (case username of
        None \<Rightarrow> DEFAULT_GITHUB_USER cfg
      | Some u \<Rightarrow> if truthy (JStr u) then u else DEFAULT_GITHUB_USER cfg)"

text \<open>Lines 84 to 92. The host of the address is fixed before the name begins, so
  \<open>new URL\<close> accepts it whatever the name is.\<close>

definition github_request :: "config \<Rightarrow> string \<Rightarrow> request" where
  "github_request cfg user =
     \<lparr> url = ''https://api.github.com/users/'' @ user @ ''/repos'',
       searchParams = [(''sort'', ''updated''), (''per_page'', ''5'')],
       req_headers =
         (''User-Agent'', ''Dev-Command-Center'') #
         (if GITHUB_TOKEN cfg \<noteq> [] then [(''Authorization'', ''Bearer '' @ GITHUB_TOKEN cfg)]
          else []) \<rparr>"

text \<open>The arrow function of \<open>data.map\<close>: reading a property of \<open>null\<close> throws.\<close>

definition repo_summary :: "json \<Rightarrow> exn + json" where
  "repo_summary repo =
     (case get_prop repo ''id'' of Inl e \<Rightarrow> Inl e | Inr rid \<Rightarrow>
      case get_prop repo ''name'' of Inl e \<Rightarrow> Inl e | Inr rname \<Rightarrow>
      case get_prop repo ''description'' of Inl e \<Rightarrow> Inl e | Inr rdescription \<Rightarrow>
      case get_prop repo ''html_url'' of Inl e \<Rightarrow> Inl e | Inr rurl \<Rightarrow>
      case get_prop repo ''pushed_at'' of Inl e \<Rightarrow> Inl e | Inr rpushed \<Rightarrow>
      case get_prop repo ''stargazers_count'' of Inl e \<Rightarrow> Inl e | Inr rstars \<Rightarrow>
      case get_prop repo ''language'' of Inl e \<Rightarrow> Inl e | Inr rlanguage \<Rightarrow>
        Inr (JObj
          [(''id'', rid),
           (''name'', rname),
           (''description'', rdescription),
           (''url'', rurl),
           (''pushedAt'', rpushed),
           (''stars'', rstars),
           (''language'', rlanguage)]))"

text \<open>\<open>Array.prototype.map\<close> with a callback that may throw: the first exception ends
  the loop.\<close>

fun map_throwing :: "('a \<Rightarrow> exn + 'b) \<Rightarrow> 'a list \<Rightarrow> exn + 'b list" where
  "map_throwing f [] = Inr []"
| "map_throwing f (x # xs) =
     (case f x of
        Inl e \<Rightarrow> Inl e
      | Inr y \<Rightarrow> (case map_throwing f xs of Inl e \<Rightarrow> Inl e | Inr ys \<Rightarrow> Inr (y # ys)))"

text \<open>\<open>data.map(...)\<close>: only an array has \<open>map\<close>.\<close>

definition map_repos :: "json \<Rightarrow> exn + json" where
  "map_repos data =
     (case data of
        JArr repos \<Rightarrow>
          (case map_throwing repo_summary repos of Inl e \<Rightarrow> Inl e | Inr rs \<Rightarrow> Inr (JArr rs))
      | JNull \<Rightarrow> Inl (Error ''Cannot read properties of null (reading 'map')'')
      | _ \<Rightarrow> Inl (Error ''data.map is not a function''))"

text \<open>Lines 93 to 107, from the settled \<open>fetch\<close> on. Nothing here is inside a \<open>try\<close>:
  a rejected \<open>fetch\<close>, \<open>text()\<close> or \<open>json()\<close> and an exception of the mapping reject the
  promise the adapter returns (\<open>Inl\<close>).\<close>

definition github_respond :: "exn + fetch_response \<Rightarrow> exn + json" where
  "github_respond fetched =
     (case fetched of
        Inl e \<Rightarrow> Inl e
      | Inr response \<Rightarrow>
          if \<not> response_ok response then
            (case resp_text response of
               Inl e \<Rightarrow> Inl e
             | Inr msg \<Rightarrow>
                 Inr (JObj
                   [(''error'', JStr (''GitHub API error: '' @ show_nat (resp_status response))),
                    (''details'', JStr msg)]))
          else
            (case resp_json response of
               Inl e \<Rightarrow> Inl e
             | Inr data \<Rightarrow> map_repos data))"

definition getGithubRepos :: "config \<Rightarrow> world \<Rightarrow> string option \<Rightarrow> exn + json" where
  "getGithubRepos cfg w username =
     (let user = github_user cfg username
      in if \<not> truthy (JStr user) then Inr (JObj [(''error'', JStr ''Missing GitHub username'')])
         else github_respond (fetch w (github_request cfg user)))"

subsection \<open>Weather (lines 110 to 135)\<close>

definition weather_request :: "config \<Rightarrow> request" where
  "weather_request cfg =
     \<lparr> url = ''https://api.open-meteo.com/v1/forecast'',
       searchParams =
         [(''latitude'', WEATHER_LAT cfg),
          (''longitude'', WEATHER_LON cfg),
          (''current_weather'', ''true''),
          (''hourly'', ''relativehumidity_2m,apparent_temperature'')],
       req_headers = [] \<rparr>"

text \<open>\<open>v?.k\<close>: \<open>undefined\<close> on \<open>null\<close> and \<open>undefined\<close>, the property otherwise.\<close>

definition opt_prop :: "json \<Rightarrow> string \<Rightarrow> json" where
  "opt_prop v k = (case get_prop v k of Inl _ \<Rightarrow> JUndefined | Inr x \<Rightarrow> x)"

text \<open>\<open>v?.[0]\<close>: the first element of an array, the first character of a string, the
  property \<open>"0"\<close> of an object.\<close>

fun opt_index0 :: "json \<Rightarrow> json" where
  "opt_index0 (JArr (x # _)) = x"
| "opt_index0 (JStr (c # _)) = JStr [c]"
| "opt_index0 (JObj kvs) = (case map_of kvs ''0'' of Some v \<Rightarrow> v | None \<Rightarrow> JUndefined)"
| "opt_index0 _ = JUndefined"

text \<open>\<open>v ?? null\<close>.\<close>

fun or_null :: "json \<Rightarrow> json" where
  "or_null JUndefined = JNull"
| "or_null v = v"

text \<open>Lines 125 to 134; \<open>data.current_weather\<close> throws when \<open>data\<close> is \<open>null\<close>, and
  after it no property is read from \<open>null\<close> or \<open>undefined\<close>.\<close>

definition weather_summary :: "json \<Rightarrow> exn + json" where
  "weather_summary data =
     (case get_prop data ''current_weather'' of
        Inl e \<Rightarrow> Inl e
      | Inr cw \<Rightarrow>
          (let current = (if truthy cw then cw else JObj []);
               hourly = opt_prop data ''hourly''
           in Inr (JObj
                [(''temperature'', opt_prop current ''temperature''),
                 (''windSpeed'', opt_prop current ''windspeed''),
                 (''weatherCode'', opt_prop current ''weathercode''),
                 (''time'', opt_prop current ''time''),
                 (''timezone'', opt_prop data ''timezone''),
                 (''apparentTemperature'',
                    or_null (opt_index0 (opt_prop hourly ''apparent_temperature''))),
                 (''humidity'',
                    or_null (opt_index0 (opt_prop hourly ''relativehumidity_2m'')))])))"

definition getWeather :: "config \<Rightarrow> world \<Rightarrow> exn + json" where
  "getWeather cfg w =
     (if \<not> truthy (JStr (WEATHER_LAT cfg)) \<or> \<not> truthy (JStr (WEATHER_LON cfg))
      then Inr (JObj
             [(''error'',
               JStr ''Missing WEATHER_LATITUDE or WEATHER_LONGITUDE environment variables.'')])
      else
        (case fetch w (weather_request cfg) of
           Inl e \<Rightarrow> Inl e
         | Inr response \<Rightarrow>
             if \<not> response_ok response then
               (case resp_text response of
                  Inl e \<Rightarrow> Inl e
                | Inr msg \<Rightarrow>
                    Inr (JObj
                      [(''error'', JStr (''Weather API error: '' @ show_nat (resp_status response))),
                       (''details'', JStr msg)]))
             else
               (case resp_json response of
                  Inl e \<Rightarrow> Inl e
                | Inr data \<Rightarrow> weather_summary data)))"

subsection \<open>Motivation (lines 144 to 157)\<close>

text \<open>Strings are their UTF-8 bytes. The third quote holds, where a dash was meant, the
  three characters of a dash read in the wrong encoding: the eight bytes of line 148.\<close>

definition quotes :: "string list" where
  "quotes =
     [''The bugs fear you. Show them why.'',
      ''Deploy dreams, not excuses.'',
      ''Stay determined '' @
        [CHR 0xC3, CHR 0xA2, CHR 0xE2, CHR 0x82, CHR 0xAC, CHR 0xE2, CHR 0x80, CHR 0x9D] @
        '' even Stack Overflow sleeps sometimes.'',
      ''Every commit is a spell. Cast wisely.'',
      ''Code today like the future depends on it.'']"

text \<open>\<open>a % b\<close> on integers: the remainder has the sign of \<open>a\<close>.\<close>

definition int_rem :: "int \<Rightarrow> int \<Rightarrow> int" where
  "int_rem a b = sgn a * (\<bar>a\<bar> mod \<bar>b\<bar>)"

text \<open>\<open>quotes[index]\<close>: \<open>undefined\<close> outside the list.\<close>

definition quote_at :: "int \<Rightarrow> json" where
  "quote_at i = (if 0 \<le> i \<and> i < int (length quotes) then JStr (quotes ! nat i) else JUndefined)"

text \<open>The clock is the argument: \<open>Date.now()\<close>, an integer number of milliseconds, for
  which \<open>Math.floor(t / 60000)\<close> is the integer quotient rounded down.\<close>

definition getMotivation :: "int \<Rightarrow> json" where
  "getMotivation t =
     (let index = int_rem (t div 60000) (int (length quotes))
      in JObj [(''quote'', quote_at index), (''allQuotes'', JArr (map JStr quotes))])"

section \<open>Aggregator (lines 159 to 172)\<close>

text \<open>
  \<open>Promise.all\<close> starts the three adapters and rejects as soon as one of them rejects;
  the uptime and the motivation are read only after all three have fulfilled. The system
  adapter never rejects. When both remote adapters reject, the reason reported is that of
  the one that rejected first in time, which the world tells (\<open>weather_rejects_first\<close>).
\<close>

definition buildDashboard :: "config \<Rightarrow> world \<Rightarrow> string option \<Rightarrow> exn + json" where
  "buildDashboard cfg w username =
     (let system = getSystemStats w
      in case getGithubRepos cfg w username of
           Inl e \<Rightarrow>
             (case getWeather cfg w of
                Inl e' \<Rightarrow> Inl (if weather_rejects_first w then e' else e)
              | Inr weather \<Rightarrow> Inl e)
         | Inr github \<Rightarrow>
             (case getWeather cfg w of
                Inl e' \<Rightarrow> Inl e'
              | Inr weather \<Rightarrow>
                  Inr (JObj
                    [(''system'', system),
                     (''github'', github),
                     (''weather'', weather),
                     (''uptime'', getUptime w),
                     (''motivation'', getMotivation (now w))])))"

section \<open>HTTP layer (lines 174 to 277)\<close>

text \<open>A header value is a text or a number; the length of a JSON body is kept as the
  payload it is the length of, since \<open>JSON.stringify\<close> is not modelled.\<close>

datatype hvalue = HStr string | HNum nat | HJsonLength json

datatype body = NoBody | Raw string | JsonText json

record http_response =
  status :: nat
  headers :: "(string \<times> hvalue) list"
  body :: body

definition sendJson :: "nat \<Rightarrow> json \<Rightarrow> http_response" where
  "sendJson statusCode payload =
     \<lparr> status = statusCode,
       headers =
         [(''Content-Type'', HStr ''application/json''),
          (''Content-Length'', HJsonLength payload),
          (''Access-Control-Allow-Origin'', HStr ''*''),
          (''Access-Control-Allow-Headers'', HStr ''Content-Type''),
          (''Access-Control-Allow-Methods'', HStr ''GET'')],
       body = JsonText payload \<rparr>"

subsection \<open>Paths (node:path, POSIX)\<close>

text \<open>\<open>s.split(sep)\<close> for a one-character separator class: always at least one field.\<close>

fun split_on :: "(char \<Rightarrow> bool) \<Rightarrow> string \<Rightarrow> string list" where
  "split_on P [] = [[]]"
| "split_on P (c # cs) =
     (if P c then [] # split_on P cs
      else (case split_on P cs of [] \<Rightarrow> [[c]] | s # ss \<Rightarrow> (c # s) # ss))"

definition is_slash :: "char \<Rightarrow> bool" where
  "is_slash c = (c = CHR ''/'')"

text \<open>Node's \<open>normalizeString\<close>, on the fields between the slashes: empty fields and
  \<open>.\<close> are dropped; \<open>..\<close> removes the field before it, and where there is none it is
  dropped (absolute path) or kept (relative path, \<open>allowAboveRoot\<close>).\<close>

fun normalizeString :: "bool \<Rightarrow> string list \<Rightarrow> string list \<Rightarrow> string list" where
  "normalizeString allowAboveRoot res [] = res"
| "normalizeString allowAboveRoot res (seg # segs) =
     (if seg = [] \<or> seg = ''.'' then normalizeString allowAboveRoot res segs
      else if seg = ''..'' then
        (if res \<noteq> [] \<and> last res \<noteq> ''..'' then normalizeString allowAboveRoot (butlast res) segs
         else if allowAboveRoot then normalizeString allowAboveRoot (res @ [''..'']) segs
         else normalizeString allowAboveRoot res segs)
      else normalizeString allowAboveRoot (res @ [seg]) segs)"

definition path_normalize :: "string \<Rightarrow> string" where
  "path_normalize p =
     (if p = [] then ''.''
      else
        let isAbsolute = is_slash (hd p);
            trailingSeparator = is_slash (last p);
            q = join_with ''/'' (normalizeString (\<not> isAbsolute) [] (split_on is_slash p))
        in if q = [] then (if isAbsolute then ''/'' else if trailingSeparator then ''./'' else ''.'')
           else (if isAbsolute then ''/'' else []) @ q @ (if trailingSeparator then ''/'' else []))"

definition path_join :: "string list \<Rightarrow> string" where
  "path_join args =
     (let joined = join_with ''/'' (filter (\<lambda>a. a \<noteq> []) args)
      in if joined = [] then ''.'' else path_normalize joined)"

text \<open>\<open>path.extname\<close>: from the last dot of the last path component, unless that
  component has no dot, begins with its only dot, or is \<open>..\<close>.\<close>

definition basename_of :: "string \<Rightarrow> string" where
  "basename_of p = rev (takeWhile (\<lambda>c. \<not> is_slash c) (dropWhile is_slash (rev p)))"

definition extname :: "string \<Rightarrow> string" where
  "extname p =
     (let base = basename_of p;
          ext = rev (takeWhile (\<lambda>c. c \<noteq> CHR ''.'') (rev base));
          stem = take (length base - length ext - 1) base
      in if CHR ''.'' \<notin> set base \<or> stem = [] \<or> base = ''..'' then [] else ''.'' @ ext)"

text \<open>\<open>toLowerCase\<close> on the ASCII letters.\<close>

definition lower_char :: "char \<Rightarrow> char" where
  "lower_char c =
     (let n = of_char c :: nat in if 65 \<le> n \<and> n \<le> 90 then char_of (n + 32) else c)"

definition toLowerCase :: "string \<Rightarrow> string" where
  "toLowerCase s = map lower_char s"

definition CLIENT_DIR :: "config \<Rightarrow> string" where
  "CLIENT_DIR cfg = path_join [server_dirname cfg, ''..'', ''..'', ''client'']"

subsection \<open>Static files (lines 186 to 211)\<close>

definition content_types :: "(string \<times> string) list" where
  "content_types =
     [(''.html'', ''text/html''),
      (''.css'', ''text/css''),
      (''.js'', ''application/javascript''),
      (''.json'', ''application/json''),
      (''.svg'', ''image/svg+xml'')]"

definition serveStatic :: "world \<Rightarrow> string \<Rightarrow> http_response" where
  "serveStatic w filePath =
     (case readFile w filePath of
        Inr data \<Rightarrow>
          (let ext = toLowerCase (extname filePath);
               type = (case map_of content_types ext of
                         Some t \<Rightarrow> t
                       | None \<Rightarrow> ''application/octet-stream'')
           in \<lparr> status = 200,
                headers = [(''Content-Type'', HStr type), (''Content-Length'', HNum (length data))],
                body = Raw data \<rparr>)
      | Inl err \<Rightarrow>
          if err = ENOENT then \<lparr> status = 404, headers = [], body = Raw ''Not Found'' \<rparr>
          else \<lparr> status = 500, headers = [], body = Raw ''Server Error'' \<rparr>)"

subsection \<open>The request handler (lines 213 to 277)\<close>

text \<open>
  A request as the handler reads it: the method, the path of the request target as the
  URL parser meets it (the text after the authority and before \<open>?\<close> or \<open>#\<close>, with the
  characters the parser percent-encodes already encoded), and what
  \<open>searchParams.get('user')\<close> returns (\<open>None\<close> for \<open>null\<close>). A request target or Host
  header that \<open>new URL\<close> rejects is outside the model: the handler then throws before it
  writes any response.
\<close>

record http_request =
  req_method :: string
  req_path :: string
  req_user :: "string option"

text \<open>
  \<open>new URL(req.url, base).pathname\<close> for an \<open>http\<close> address (the path state of the URL
  standard): the path is cut at every slash and backslash; a field \<open>..\<close> (also written with \<open>%2e\<close>, in
  either case) removes the field before it and a field \<open>.\<close> (or \<open>%2e\<close>) is skipped, each
  leaving an empty last field when it ends the path; every other field is kept as it is,
  percent-encoded bytes included.
\<close>

definition is_url_sep :: "char \<Rightarrow> bool" where
  "is_url_sep c = (c = CHR ''/'' \<or> c = CHR 0x5C)"

definition is_single_dot :: "string \<Rightarrow> bool" where
  "is_single_dot s = (toLowerCase s \<in> set [''.'', ''%2e''])"

definition is_double_dot :: "string \<Rightarrow> bool" where
  "is_double_dot s = (toLowerCase s \<in> set [''..'', ''.%2e'', ''%2e.'', ''%2e%2e''])"

fun path_state :: "string list \<Rightarrow> string list \<Rightarrow> string list" where
  "path_state path [] = path"
| "path_state path (buffer # rest) =
     (if is_double_dot buffer
      then path_state (butlast path @ (if rest = [] then [[]] else [])) rest
      else if is_single_dot buffer
      then path_state (path @ (if rest = [] then [[]] else [])) rest
      else path_state (path @ [buffer]) rest)"

definition url_pathname :: "string \<Rightarrow> string" where
  "url_pathname raw =
     (let after_slash = (case raw of [] \<Rightarrow> [] | c # cs \<Rightarrow> if is_url_sep c then cs else raw)
      in concat (map (\<lambda>seg. CHR ''/'' # seg) (path_state [] (split_on is_url_sep after_slash))))"

text \<open>\<open>searchParams.get('user') || undefined\<close>.\<close>

definition user_override :: "string option \<Rightarrow> string option" where
  "user_override got =
     (case got of None \<Rightarrow> None | Some u \<Rightarrow> if truthy (JStr u) then Some u else None)"

definition cors_headers :: "(string \<times> hvalue) list" where
  "cors_headers =
     [(''Access-Control-Allow-Origin'', HStr ''*''),
      (''Access-Control-Allow-Headers'', HStr ''Content-Type''),
      (''Access-Control-Allow-Methods'', HStr ''GET'')]"

text \<open>The \<open>try\<close> block of the \<open>/api/\<close> branch: the response written, or the exception
  that reaches the \<open>catch\<close>.\<close>

definition api_try :: "config \<Rightarrow> world \<Rightarrow> string \<Rightarrow> string option \<Rightarrow> exn + http_response" where
  "api_try cfg w pathname got =
     (if pathname = ''/api/system'' then Inr (sendJson 200 (getSystemStats w))
      else if pathname = ''/api/github'' then
        (case getGithubRepos cfg w (user_override got) of
           Inl e \<Rightarrow> Inl e
         | Inr github \<Rightarrow> Inr (sendJson 200 github))
      else if pathname = ''/api/weather'' then
        (case getWeather cfg w of
           Inl e \<Rightarrow> Inl e
         | Inr weather \<Rightarrow> Inr (sendJson 200 weather))
      else if pathname = ''/api/uptime'' then Inr (sendJson 200 (getUptime w))
      else if pathname = ''/api/motivation'' then Inr (sendJson 200 (getMotivation (now w)))
      else if pathname = ''/api/dashboard'' then
        (case buildDashboard cfg w (user_override got) of
           Inl e \<Rightarrow> Inl e
         | Inr dashboard \<Rightarrow> Inr (sendJson 200 dashboard))
      else Inr (sendJson 404 (JObj [(''error'', JStr ''Endpoint not found'')])))"

definition server :: "config \<Rightarrow> world \<Rightarrow> http_request \<Rightarrow> http_response" where
  "server cfg w req =
     (if req_method req = ''OPTIONS''
      then \<lparr> status = 204, headers = cors_headers, body = NoBody \<rparr>
      else
        let pathname = url_pathname (req_path req)
        in if prefix ''/api/'' pathname then
             (case api_try cfg w pathname (req_user req) of
                Inr response \<Rightarrow> response
              | Inl e \<Rightarrow>
                  sendJson 500
                    (JObj [(''error'', JStr ''Server error''), (''details'', JStr (message e))]))
           else
             let safePath = (if pathname = ''/'' \<or> pathname = [] then ''/index.html'' else pathname);
                 resolvedPath = path_normalize (path_join [CLIENT_DIR cfg, safePath])
             in if \<not> prefix (CLIENT_DIR cfg) resolvedPath
                then \<lparr> status = 403, headers = [], body = Raw ''Forbidden'' \<rparr>
                else serveStatic w resolvedPath)"

section \<open>Sample inputs and the predicates of the claims\<close>

text \<open>A reader of unsigned decimal integers, the only numerals \<open>df -k\<close> prints: it
  stands for \<open>Number\<close> in the sample world. It agrees with \<open>Number\<close> on the empty string
  (zero) and on digit strings; every other string it reads as NaN.\<close>

definition is_digit :: "char \<Rightarrow> bool" where
  "is_digit c = (let n = of_char c :: nat in 48 \<le> n \<and> n \<le> 57)"

definition read_decimal :: "string \<Rightarrow> jsnum" where
  "read_decimal s =
     (if s = [] then Fin 0
      else if list_all is_digit s
      then Fin (foldl (\<lambda>acc c. acc * 10 + of_nat (of_char c - 48)) 0 s)
      else NotFinite)"

definition sample_config :: config where
  "sample_config =
     \<lparr> server_dirname = ''/srv/app/server/src'',
       DEFAULT_GITHUB_USER = ''octocat'',
       GITHUB_TOKEN = [],
       WEATHER_LAT = ''40.7128'',
       WEATHER_LON = ''-74.0060'' \<rparr>"

definition sample_weather :: json where
  "sample_weather =
     JObj
       [(''timezone'', JStr ''GMT''),
        (''current_weather'',
           JObj [(''temperature'', JNum (Fin 21)), (''windspeed'', JNum (Fin 7)),
                 (''weathercode'', JNum (Fin 3)), (''time'', JStr ''2024-05-01T12:00'')]),
        (''hourly'',
           JObj [(''apparent_temperature'', JArr [JNum (Fin 20)]),
                 (''relativehumidity_2m'', JArr [JNum (Fin 55)])])]"

text \<open>A host whose disk query and weather service answer and for which GitHub cannot be
  reached (\<open>fetch\<close> rejects, as it does on a DNS or connection failure); the asset
  root holds \<open>index.html\<close> only.\<close>

definition sample_world :: world where
  "sample_world =
     \<lparr> execAsync = Inr ('' 41152736 20369984'' @ [CHR 0x0A]),
       fetch =
         (\<lambda>r. if url r = ''https://api.open-meteo.com/v1/forecast''
              then Inr (Response 200 (Inr ''{}'') (Inr sample_weather))
              else Inl (Error ''fetch failed'')),
       weather_rejects_first = False,
       Number = read_decimal,
       loadavg = (1 / 2, 1 / 4, 1 / 8),
       cpus = 4,
       totalmem = 8589934592,
       freemem = 2147483648,
       platform = ''linux'',
       release = ''6.1.0'',
       os_uptime = 90061,
       process_uptime = 59,
       now = 1700000000000,
       readFile =
         (\<lambda>p. if p = ''/srv/app/client/index.html'' then Inr ''<!doctype html>''
              else Inl ENOENT) \<rparr>"

text \<open>The paths the handler compares the pathname with (lines 229 to 253).\<close>

definition api_routes :: "string list" where
  "api_routes =
     [''/api/system'', ''/api/github'', ''/api/weather'', ''/api/uptime'', ''/api/motivation'',
      ''/api/dashboard'']"

text \<open>The three cross-origin headers: any origin, the method GET, the header
  Content-Type.\<close>

definition has_cors :: "http_response \<Rightarrow> bool" where
  "has_cors r =
     (map_of (headers r) ''Access-Control-Allow-Origin'' = Some (HStr ''*'') \<and>
      map_of (headers r) ''Access-Control-Allow-Methods'' = Some (HStr ''GET'') \<and>
      map_of (headers r) ''Access-Control-Allow-Headers'' = Some (HStr ''Content-Type''))"

text \<open>None of the three headers is present.\<close>

definition no_cors :: "http_response \<Rightarrow> bool" where
  "no_cors r = list_all (\<lambda>k. map_of (headers r) k = None) (map fst cors_headers)"


text \<open>The sample host with a failing and with a garbled disk query, without network, and
  a configuration with neither a GitHub user nor a latitude.\<close>

definition disk_failed :: world where
  "disk_failed = sample_world\<lparr> execAsync := Inl (Error ''Command failed: df'') \<rparr>"

definition disk_garbled :: world where
  "disk_garbled = sample_world\<lparr> execAsync := Inr ''df: not found'' \<rparr>"

text \<open>The sample host with a root file system of 40 GiB of which 5.75 GiB are used, with
  one of about 5 PB, and with one of size zero.\<close>

definition disk_eighth :: world where
  "disk_eighth = sample_world\<lparr> execAsync := Inr ('' 41943040 6029312'' @ [CHR 0x0A]) \<rparr>"

definition disk_petabytes :: world where
  "disk_petabytes =
     sample_world\<lparr> execAsync := Inr (''5208959304834 4620607351353'' @ [CHR 0x0A]) \<rparr>"

definition disk_empty :: world where
  "disk_empty = sample_world\<lparr> execAsync := Inr (''0 0'' @ [CHR 0x0A]) \<rparr>"

text \<open>The percentage of the specification, \<open>used / size * 100\<close>, as an exact number.\<close>

definition exact_percentage :: "int \<Rightarrow> int \<Rightarrow> rat" where
  "exact_percentage used_kb size_kb = of_int used_kb / of_int size_kb * 100"

definition offline :: world where
  "offline = sample_world\<lparr> fetch := (\<lambda>r. Inl (Error ''fetch failed'')) \<rparr>"

definition unconfigured :: config where
  "unconfigured = sample_config\<lparr> DEFAULT_GITHUB_USER := [], WEATHER_LAT := [] \<rparr>"

text \<open>The shapes of the adapters' results, by their keys: the success shapes of the disk,
  weather and repository results, the error shape with \<open>error\<close> and \<open>details\<close>, and the
  error shape with \<open>error\<close> alone.\<close>

definition disk_keys :: "string list" where
  "disk_keys = [''totalBytes'', ''usedBytes'', ''freeBytes'', ''usedPercentage'']"

definition repo_keys :: "string list" where
  "repo_keys = [''id'', ''name'', ''description'', ''url'', ''pushedAt'', ''stars'', ''language'']"

definition weather_keys :: "string list" where
  "weather_keys =
     [''temperature'', ''windSpeed'', ''weatherCode'', ''time'', ''timezone'',
      ''apparentTemperature'', ''humidity'']"

definition error_details_shape :: "json \<Rightarrow> bool" where
  "error_details_shape v = (keys v = [''error'', ''details''])"

definition error_only_shape :: "json \<Rightarrow> bool" where
  "error_only_shape v = (keys v = [''error''])"

fun repo_list_shape :: "json \<Rightarrow> bool" where
  "repo_list_shape (JArr rs) = list_all (\<lambda>r. keys r = repo_keys) rs"
| "repo_list_shape _ = False"


text \<open>A traversal request, and the sample host with a readable \<open>/etc/passwd\<close> outside
  the asset root.\<close>

definition traversal :: http_request where
  "traversal = \<lparr> req_method = ''GET'', req_path = ''/../../etc/passwd'', req_user = None \<rparr>"

definition with_passwd :: world where
  "with_passwd =
     sample_world\<lparr> readFile :=
       (\<lambda>p. if p = ''/etc/passwd'' then Inr ''root:x:0:0:root:/root:/bin/sh''
            else readFile sample_world p) \<rparr>"

text \<open>Notions of the path proofs: a path written from its fields, each after a slash;
  fields without a slash, fields other than \<open>.\<close> and \<open>..\<close>, fields that are not
  empty.\<close>

definition render :: "string list \<Rightarrow> string" where
  "render segs = concat (map (\<lambda>seg. CHR ''/'' # seg) segs)"

definition slash_free :: "string list \<Rightarrow> bool" where
  "slash_free segs = list_all (\<lambda>s. CHR ''/'' \<notin> set s) segs"

definition dot_free :: "string list \<Rightarrow> bool" where
  "dot_free segs = list_all (\<lambda>s. s \<noteq> ''.'' \<and> s \<noteq> ''..'') segs"

definition no_empty :: "string list \<Rightarrow> bool" where
  "no_empty segs = list_all (\<lambda>s. s \<noteq> []) segs"

text \<open>A path lies under a directory: it is the directory, a slash and more, and none of
  its fields between slashes is \<open>.\<close> or \<open>..\<close>, so that no field leads back out.\<close>

definition under_root :: "string \<Rightarrow> string \<Rightarrow> bool" where
  "under_root dir p = (prefix (dir @ ''/'') p \<and> dot_free (split_on is_slash p))"


text \<open>The sample host with GitHub answering 403, with both remotes answering 403, and
  with an asset root that cannot be read; the content type \<open>serveStatic\<close> selects for a path.\<close>

definition github_forbidden :: world where
  "github_forbidden =
     sample_world\<lparr> fetch :=
       (\<lambda>r. if url r = ''https://api.open-meteo.com/v1/forecast''
            then Inr (Response 200 (Inr ''{}'') (Inr sample_weather))
            else Inr (Response 403 (Inr ''rate limit exceeded'')
                   (Inl (Error ''Unexpected token r in JSON at position 0'')))) \<rparr>"

definition remotes_forbidden :: world where
  "remotes_forbidden =
     sample_world\<lparr> fetch :=
       (\<lambda>r. Inr (Response 403 (Inr ''rate limit exceeded'')
              (Inl (Error ''Unexpected token'')))) \<rparr>"

definition unreadable :: world where
  "unreadable = sample_world\<lparr> readFile := (\<lambda>p. Inl OtherFsError) \<rparr>"

definition content_type_of :: "string \<Rightarrow> string" where
  "content_type_of p =
     (case map_of content_types (toLowerCase (extname p)) of
        Some t \<Rightarrow> t
      | None \<Rightarrow> ''application/octet-stream'')"


section \<open>Claims\<close>

text \<open>
  C9. The client's formatting helpers give the contract values: \<open>formatBytes(1536)\<close> is
  "1.5 KB" and \<open>formatDuration(90061)\<close> is "1d 1h 1m 1s".
\<close>

theorem format_contract_values:
  "formatBytes (Fin 1536) = Some ''1.5 KB'' \<and>
   formatDuration (Fin 90061) = Some ''1d 1h 1m 1s''"
  by code_simp

subsection \<open>Responses and their headers\<close>

lemma has_cors_sendJson: "has_cors (sendJson code payload)"
  by (simp add: has_cors_def sendJson_def)

lemma no_cors_serveStatic: "no_cors (serveStatic w p)"
  by (simp add: no_cors_def serveStatic_def cors_headers_def Let_def split: sum.splits)

lemma no_cors_empty: "no_cors \<lparr> status = s, headers = [], body = b \<rparr>"
  by (simp add: no_cors_def cors_headers_def)

lemma api_try_has_cors: "api_try cfg w pathname got = Inr r \<Longrightarrow> has_cors r"
  by (auto simp: api_try_def has_cors_sendJson split: if_splits sum.splits)

text \<open>
  C8. A request other than OPTIONS (a GET in particular) whose pathname begins with
  \<open>/api/\<close> and is none of the six routes is answered 404 with the JSON body
  \<open>{"error": "Endpoint not found"}\<close> and the cross-origin headers; an OPTIONS request on
  any path is answered 204 with no body and the cross-origin headers.
\<close>

theorem unknown_api_and_preflight:
  "(req_method req \<noteq> ''OPTIONS'' \<and> prefix ''/api/'' (url_pathname (req_path req)) \<and>
    url_pathname (req_path req) \<notin> set api_routes \<longrightarrow>
      status (server cfg w req) = 404 \<and>
      body (server cfg w req) = JsonText (JObj [(''error'', JStr ''Endpoint not found'')]) \<and>
      has_cors (server cfg w req)) \<and>
   (req_method req = ''OPTIONS'' \<longrightarrow>
      status (server cfg w req) = 204 \<and> body (server cfg w req) = NoBody \<and>
      has_cors (server cfg w req))"
proof (intro conjI impI)
  assume a: "req_method req \<noteq> ''OPTIONS'' \<and> prefix ''/api/'' (url_pathname (req_path req)) \<and>
    url_pathname (req_path req) \<notin> set api_routes"
  then have r: "server cfg w req = sendJson 404 (JObj [(''error'', JStr ''Endpoint not found'')])"
    by (simp add: server_def api_try_def api_routes_def Let_def)
  show "status (server cfg w req) = 404" by (simp add: r sendJson_def)
  show "body (server cfg w req) = JsonText (JObj [(''error'', JStr ''Endpoint not found'')])"
    by (simp add: r sendJson_def)
  show "has_cors (server cfg w req)" by (simp add: r has_cors_sendJson)
next
  assume o: "req_method req = ''OPTIONS''"
  then have r: "server cfg w req = \<lparr> status = 204, headers = cors_headers, body = NoBody \<rparr>"
    by (simp add: server_def)
  show "status (server cfg w req) = 204" by (simp add: r)
  show "body (server cfg w req) = NoBody" by (simp add: r)
  show "has_cors (server cfg w req)" by (simp add: r has_cors_def cors_headers_def)
qed

theorem unknown_api_and_preflight_witness:
  "status (server sample_config sample_world
      \<lparr> req_method = ''GET'', req_path = ''/api/nonexistent'', req_user = None \<rparr>) = 404 \<and>
   body (server sample_config sample_world
      \<lparr> req_method = ''GET'', req_path = ''/api/nonexistent'', req_user = None \<rparr>) =
     JsonText (JObj [(''error'', JStr ''Endpoint not found'')]) \<and>
   has_cors (server sample_config sample_world
      \<lparr> req_method = ''GET'', req_path = ''/api/nonexistent'', req_user = None \<rparr>) \<and>
   status (server sample_config sample_world
      \<lparr> req_method = ''OPTIONS'', req_path = ''/anything'', req_user = None \<rparr>) = 204 \<and>
   body (server sample_config sample_world
      \<lparr> req_method = ''OPTIONS'', req_path = ''/anything'', req_user = None \<rparr>) = NoBody \<and>
   has_cors (server sample_config sample_world
      \<lparr> req_method = ''OPTIONS'', req_path = ''/anything'', req_user = None \<rparr>)"
proof -
  let ?g = "\<lparr> req_method = ''GET'', req_path = ''/api/nonexistent'', req_user = None \<rparr>"
  let ?o = "\<lparr> req_method = ''OPTIONS'', req_path = ''/anything'', req_user = None \<rparr>"
  have g: "req_method ?g \<noteq> ''OPTIONS'' \<and> prefix ''/api/'' (url_pathname (req_path ?g)) \<and>
      url_pathname (req_path ?g) \<notin> set api_routes"
    by code_simp
  have o: "req_method ?o = ''OPTIONS''" by simp
  from g o unknown_api_and_preflight [of ?g sample_config sample_world]
    unknown_api_and_preflight [of ?o sample_config sample_world]
  show ?thesis by blast
qed

text \<open>
  C5, as the code has it. Every response to an OPTIONS request and every response on a
  pathname under \<open>/api/\<close> (200, 404 and 500 alike) carries the three cross-origin
  headers; every response of the static branch (200, 403, 404, 500) carries none of them.
\<close>

theorem cors_on_api_not_on_static:
  "(req_method req = ''OPTIONS'' \<or> prefix ''/api/'' (url_pathname (req_path req)) \<longrightarrow>
      has_cors (server cfg w req)) \<and>
   (req_method req \<noteq> ''OPTIONS'' \<and> \<not> prefix ''/api/'' (url_pathname (req_path req)) \<longrightarrow>
      no_cors (server cfg w req))"
proof (intro conjI impI)
  assume a: "req_method req = ''OPTIONS'' \<or> prefix ''/api/'' (url_pathname (req_path req))"
  show "has_cors (server cfg w req)"
  proof (cases "req_method req = ''OPTIONS''")
    case True
    then show ?thesis by (simp add: server_def has_cors_def cors_headers_def)
  next
    case False
    with a have p: "prefix ''/api/'' (url_pathname (req_path req))" by simp
    show ?thesis
    proof (cases "api_try cfg w (url_pathname (req_path req)) (req_user req)")
      case (Inl e)
      with False p show ?thesis by (simp add: server_def Let_def has_cors_sendJson)
    next
      case (Inr r)
      with False p show ?thesis by (simp add: server_def Let_def api_try_has_cors)
    qed
  qed
next
  assume "req_method req \<noteq> ''OPTIONS'' \<and> \<not> prefix ''/api/'' (url_pathname (req_path req))"
  then show "no_cors (server cfg w req)"
    by (auto simp: server_def Let_def no_cors_serveStatic no_cors_empty)
qed

theorem cors_on_api_not_on_static_witness:
  "has_cors (server sample_config sample_world
      \<lparr> req_method = ''GET'', req_path = ''/api/dashboard'', req_user = None \<rparr>) \<and>
   no_cors (server sample_config sample_world
      \<lparr> req_method = ''GET'', req_path = ''/missing.css'', req_user = None \<rparr>)"
proof -
  let ?a = "\<lparr> req_method = ''GET'', req_path = ''/api/dashboard'', req_user = None \<rparr>"
  let ?s = "\<lparr> req_method = ''GET'', req_path = ''/missing.css'', req_user = None \<rparr>"
  have a: "req_method ?a = ''OPTIONS'' \<or> prefix ''/api/'' (url_pathname (req_path ?a))"
    by code_simp
  have s: "req_method ?s \<noteq> ''OPTIONS'' \<and> \<not> prefix ''/api/'' (url_pathname (req_path ?s))"
    by code_simp
  from a s cors_on_api_not_on_static [of ?a sample_config sample_world]
    cors_on_api_not_on_static [of ?s sample_config sample_world]
  show ?thesis by blast
qed

text \<open>C5 as stated fails on the static branch: the index document is served with a
  content type and a length, and with no cross-origin header.\<close>

theorem static_response_without_cors:
  "server sample_config sample_world
      \<lparr> req_method = ''GET'', req_path = ''/'', req_user = None \<rparr> =
     \<lparr> status = 200,
       headers = [(''Content-Type'', HStr ''text/html''), (''Content-Length'', HNum 15)],
       body = Raw ''<!doctype html>'' \<rparr> \<and>
   \<not> has_cors (server sample_config sample_world
      \<lparr> req_method = ''GET'', req_path = ''/'', req_user = None \<rparr>)"
  by code_simp


subsection \<open>Motivation\<close>

lemma length_quotes: "length quotes = 5"
  by (simp add: quotes_def)

lemma int_rem_nonneg: "0 \<le> a \<Longrightarrow> 0 < b \<Longrightarrow> int_rem a b = a mod b"
  by (cases "a = 0") (simp_all add: int_rem_def)

text \<open>
  C7. Two times in the same minute (equal \<open>floor(t / 60000)\<close>) give the identical
  result, and for every time \<open>t\<close> since the epoch the quote returned is the element at
  index \<open>floor(t / 60000) mod 5\<close> of the list of five quotes. The adapter is a function of
  the time alone: it has no state and draws no random number.
\<close>

theorem motivation_by_minute:
  "(t1 div 60000 = t2 div 60000 \<longrightarrow> getMotivation t1 = getMotivation t2) \<and>
   (0 \<le> t \<longrightarrow>
      get_prop (getMotivation t) ''quote'' = Inr (JStr (quotes ! nat (t div 60000 mod 5)))) \<and>
   length quotes = 5"
proof (intro conjI impI)
  assume "t1 div 60000 = t2 div 60000"
  then show "getMotivation t1 = getMotivation t2"
    by (simp add: getMotivation_def)
next
  assume t: "0 \<le> t"
  then have d: "0 \<le> t div 60000" by simp
  have r: "int_rem (t div 60000) 5 = t div 60000 mod 5"
    using d by (simp add: int_rem_nonneg)
  have lo: "0 \<le> t div 60000 mod 5" and hi: "t div 60000 mod 5 < 5" by simp_all
  show "get_prop (getMotivation t) ''quote'' = Inr (JStr (quotes ! nat (t div 60000 mod 5)))"
    using lo hi by (simp add: getMotivation_def Let_def r quote_at_def length_quotes)
next
  show "length quotes = 5" by (rule length_quotes)
qed

theorem motivation_by_minute_witness:
  "getMotivation 120000 = getMotivation 179999 \<and>
   get_prop (getMotivation 1700000000000) ''quote'' =
     Inr (JStr (quotes ! nat (1700000000000 div 60000 mod 5))) \<and>
   length quotes = 5"
proof -
  have a: "(120000::int) div 60000 = 179999 div 60000" by simp
  have b: "(0::int) \<le> 1700000000000" by simp
  from a b motivation_by_minute [of 120000 179999 1700000000000]
  show ?thesis by blast
qed

subsection \<open>GitHub user name\<close>

lemma github_respond_not_config:
  "github_respond x \<noteq> Inr (JObj [(''error'', JStr ''Missing GitHub username'')])"
  by (auto simp: github_respond_def map_repos_def split: sum.splits json.splits)

lemma api_try_empty_user: "api_try cfg w p (Some []) = api_try cfg w p None"
  by (simp add: api_try_def user_override_def)

text \<open>
  C10. The user name of the GitHub adapter is the caller's override when that is a
  non-empty string and the configured default otherwise; the HTTP layer turns an empty
  \<open>user\<close> parameter into an absent one, so the handler answers an empty override as it
  answers none; the adapter returns the missing-user-name error exactly when the override
  is absent or empty and the default is empty; otherwise the one request it makes is
  addressed to \<open>/users/<name>/repos\<close> for that name.
\<close>

theorem github_username_resolution:
  "github_user cfg username =
     (case username of
        None \<Rightarrow> DEFAULT_GITHUB_USER cfg
      | Some u \<Rightarrow> if u \<noteq> [] then u else DEFAULT_GITHUB_USER cfg) \<and>
   user_override None = None \<and>
   user_override (Some []) = None \<and>
   (u \<noteq> [] \<longrightarrow> user_override (Some u) = Some u) \<and>
   server cfg w (req\<lparr> req_user := Some [] \<rparr>) = server cfg w (req\<lparr> req_user := None \<rparr>) \<and>
   (getGithubRepos cfg w username = Inr (JObj [(''error'', JStr ''Missing GitHub username'')])
      \<longleftrightarrow> (username = None \<or> username = Some []) \<and> DEFAULT_GITHUB_USER cfg = []) \<and>
   (github_user cfg username \<noteq> [] \<longrightarrow>
      getGithubRepos cfg w username =
        github_respond (fetch w (github_request cfg (github_user cfg username))) \<and>
      url (github_request cfg (github_user cfg username)) =
        ''https://api.github.com/users/'' @ github_user cfg username @ ''/repos'')"
proof (intro conjI impI)
  show "github_user cfg username =
     (case username of
        None \<Rightarrow> DEFAULT_GITHUB_USER cfg
      | Some u \<Rightarrow> if u \<noteq> [] then u else DEFAULT_GITHUB_USER cfg)"
    by (simp add: github_user_def split: option.splits)
  show "user_override None = None" by (simp add: user_override_def)
  show "user_override (Some []) = None" by (simp add: user_override_def)
  show "user_override (Some u) = Some u" if "u \<noteq> []" using that by (simp add: user_override_def)
  show "server cfg w (req\<lparr> req_user := Some [] \<rparr>) = server cfg w (req\<lparr> req_user := None \<rparr>)"
    by (simp add: server_def Let_def api_try_empty_user)
  show "(getGithubRepos cfg w username = Inr (JObj [(''error'', JStr ''Missing GitHub username'')]))
      \<longleftrightarrow> ((username = None \<or> username = Some []) \<and> DEFAULT_GITHUB_USER cfg = [])"
    by (auto simp: getGithubRepos_def github_user_def Let_def github_respond_not_config
        split: option.splits if_splits)
  show "getGithubRepos cfg w username =
        github_respond (fetch w (github_request cfg (github_user cfg username)))"
    if "github_user cfg username \<noteq> []"
    using that by (simp add: getGithubRepos_def Let_def)
  show "url (github_request cfg (github_user cfg username)) =
        ''https://api.github.com/users/'' @ github_user cfg username @ ''/repos''"
    by (simp add: github_request_def)
qed

theorem github_username_resolution_witness:
  "user_override (Some ''torvalds'') = Some ''torvalds'' \<and>
   getGithubRepos sample_config sample_world (Some ''torvalds'') =
     github_respond (fetch sample_world (github_request sample_config ''torvalds'')) \<and>
   url (github_request sample_config ''torvalds'') = ''https://api.github.com/users/torvalds/repos''"
proof -
  have a: "''torvalds'' \<noteq> []" by simp
  have b: "github_user sample_config (Some ''torvalds'') = ''torvalds''"
    by (simp add: github_user_def)
  from github_username_resolution
    [where cfg = sample_config and username = "Some ''torvalds''" and u = "''torvalds''"
       and w = sample_world] a b
  show ?thesis by simp
qed

subsection \<open>Disk\<close>

lemma bitlen_pos: "0 < a \<Longrightarrow> 1 \<le> bitlen a"
  using bitlen_eq_zero_iff [of a] bitlen_nonneg [of a] by linarith

lemma bitlen_rat_bounds:
  assumes "0 < a"
  shows "(2::rat) powi (bitlen a - 1) \<le> of_int a" and "of_int a < (2::rat) powi bitlen a"
proof -
  from bitlen_bounds [OF assms]
  have lo: "(2::int) ^ nat (bitlen a - 1) \<le> a" and hi: "a < 2 ^ nat (bitlen a)" by auto
  have p: "1 \<le> bitlen a" using assms by (rule bitlen_pos)
  have "(2::rat) powi (bitlen a - 1) = of_int (2 ^ nat (bitlen a - 1))"
    using p by (simp add: power_int_nonneg_exp)
  also have "\<dots> \<le> of_int a" using lo by (simp only: of_int_le_iff)
  finally show "(2::rat) powi (bitlen a - 1) \<le> of_int a" .
  have "(of_int a :: rat) < of_int (2 ^ nat (bitlen a))" using hi by (simp only: of_int_less_iff)
  also have "\<dots> = 2 powi bitlen a" using p by (simp add: power_int_nonneg_exp)
  finally show "of_int a < (2::rat) powi bitlen a" .
qed

lemma binade_bounds:
  assumes "0 < y"
  shows "2 powi binade y \<le> y \<and> y < 2 powi (binade y + 1)"
proof -
  obtain a b where q: "quotient_of y = (a, b)" by (cases "quotient_of y")
  have b: "0 < b" using q by (rule quotient_of_denom_pos)
  have y: "y = of_int a / of_int b" using q by (rule quotient_of_div)
  have a: "0 < a" using assms b y by (simp add: zero_less_divide_iff)
  let ?la = "bitlen a" and ?lb = "bitlen b"
  note A = bitlen_rat_bounds [OF a] and B = bitlen_rat_bounds [OF b]
  have bpos: "(0::rat) < of_int b" using b by simp
  have ppos: "(0::rat) < 2 powi (?lb - 1)" "(0::rat) < 2 powi ?lb" by simp_all
  have "y < 2 powi ?la / of_int b"
    unfolding y using A(2) bpos by (simp add: divide_strict_right_mono)
  also have "\<dots> \<le> 2 powi ?la / 2 powi (?lb - 1)"
    using B(1) ppos bpos by (intro divide_left_mono mult_pos_pos) simp_all
  also have "\<dots> = 2 powi (?la - ?lb + 1)"
    using power_int_diff [of "2::rat" ?la "?lb - 1"] by (simp add: algebra_simps)
  finally have up: "y < 2 powi (?la - ?lb + 1)" .
  have "(2::rat) powi (?la - ?lb - 1) = 2 powi (?la - 1) / 2 powi ?lb"
    using power_int_diff [of "2::rat" "?la - 1" ?lb] by (simp add: algebra_simps)
  also have "\<dots> < 2 powi (?la - 1) / of_int b"
    using B(2) bpos by (intro divide_strict_left_mono) simp_all
  also have "\<dots> \<le> y"
    unfolding y using A(1) bpos by (simp add: divide_right_mono)
  finally have lo: "2 powi (?la - ?lb - 1) < y" .
  show ?thesis
  proof (cases "2 powi (?la - ?lb) \<le> y")
    case True
    then have "binade y = ?la - ?lb" by (simp add: binade_def q)
    with True up show ?thesis by simp
  next
    case False
    then have "binade y = ?la - ?lb - 1" by (simp add: binade_def q)
    with False lo show ?thesis by simp
  qed
qed

lemma round_half_even_near: "\<bar>of_int (round_half_even x) - x\<bar> \<le> 1 / 2"
proof -
  have lo: "of_int \<lfloor>x\<rfloor> \<le> x" by (rule of_int_floor_le)
  have hi: "x < of_int \<lfloor>x\<rfloor> + 1" by linarith
  from lo hi show ?thesis by (auto simp: round_half_even_def Let_def)
qed

lemma round_half_even_int: "round_half_even (of_int k) = k"
  by (simp add: round_half_even_def)

lemma binade_range:
  assumes "2 powi lo \<le> y" and "y < 2 powi hi"
  shows "lo \<le> binade y \<and> binade y < hi"
proof -
  have pos: "0 < y" using assms(1) zero_less_power_int [of "2::rat" lo] by linarith
  note b = binade_bounds [OF pos]
  have "lo \<le> binade y"
  proof (rule ccontr)
    assume "\<not> lo \<le> binade y"
    then have "binade y + 1 \<le> lo" by simp
    then have "(2::rat) powi (binade y + 1) \<le> 2 powi lo" by (intro power_int_increasing) simp_all
    with b assms(1) show False by linarith
  qed
  moreover have "binade y < hi"
  proof (rule ccontr)
    assume "\<not> binade y < hi"
    then have "hi \<le> binade y" by simp
    then have "(2::rat) powi hi \<le> 2 powi binade y" by (intro power_int_increasing) simp_all
    with b assms(2) show False by linarith
  qed
  ultimately show ?thesis ..
qed

lemma fl_normal:
  assumes "2 powi (- 1022) \<le> y" and "y < 2 powi 1023"
  shows "\<exists>r. fl y = Fin r \<and> \<bar>r - y\<bar> \<le> y / 2 ^ 53"
proof -
  have pos: "0 < y" using assms(1) zero_less_power_int [of "2::rat" "- 1022"] by linarith
  let ?e = "binade y"
  let ?ulp = "(2::rat) powi (?e - 52)"
  let ?m = "round_half_even (y / ?ulp)"
  from binade_range [OF assms] have e: "- 1022 \<le> ?e" "?e < 1023" by auto
  have u: "0 < ?ulp" by simp
  have f: "fl y = Fin (of_int ?m * ?ulp)"
    using pos e by (simp add: fl_def Let_def max_def)
  have "\<bar>of_int ?m - y / ?ulp\<bar> \<le> 1 / 2" by (rule round_half_even_near)
  then have "\<bar>of_int ?m - y / ?ulp\<bar> * ?ulp \<le> 1 / 2 * ?ulp"
    using u by (intro mult_right_mono) simp_all
  moreover have "\<bar>of_int ?m - y / ?ulp\<bar> * ?ulp = \<bar>of_int ?m * ?ulp - y\<bar>"
  proof -
    have "\<bar>of_int ?m - y / ?ulp\<bar> * ?ulp = \<bar>(of_int ?m - y / ?ulp) * ?ulp\<bar>"
      using u by (simp add: abs_mult)
    also have "(of_int ?m - y / ?ulp) * ?ulp = of_int ?m * ?ulp - y"
      using u by (simp add: field_simps)
    finally show ?thesis .
  qed
  moreover have "1 / 2 * ?ulp = 2 powi ?e / 2 ^ 53"
    using power_int_diff [of "2::rat" ?e 53] power_int_diff [of "2::rat" ?e 52] by simp
  moreover have "2 powi ?e / 2 ^ 53 \<le> y / 2 ^ 53"
    using binade_bounds [OF pos] by (simp add: divide_right_mono)
  ultimately have "\<bar>of_int ?m * ?ulp - y\<bar> \<le> y / 2 ^ 53" by linarith
  with f show ?thesis by blast
qed

lemma fl_pos_int:
  assumes "0 < n" and "n < 2 ^ 53"
  shows "fl (of_int n) = Fin (of_int n)"
proof -
  let ?y = "of_int n :: rat"
  let ?e = "binade ?y"
  have lo: "(2::rat) powi 0 \<le> ?y" using assms(1) by simp
  have "?y < of_int (2 ^ 53)" using assms(2) by (simp only: of_int_less_iff)
  then have hi: "?y < 2 powi 53" by simp
  from binade_range [OF lo hi] have e: "0 \<le> ?e" "?e < 53" by auto
  define k where "k = nat (52 - ?e)"
  define u where "u = (2::rat) powi (?e - 52)"
  have "u = 2 powi (- int k)" using e by (simp add: u_def k_def)
  then have ulp: "u = 1 / 2 ^ k" by (simp add: power_int_minus_divide)
  have "?y / u = of_int (n * 2 ^ k)" by (simp add: ulp)
  then have m: "round_half_even (?y / u) = n * 2 ^ k"
    by (simp only: round_half_even_int)
  have y: "of_int (n * 2 ^ k) * u = ?y" by (simp add: ulp)
  have a: "\<bar>?y\<bar> = ?y" "sgn ?y = 1" "?y \<noteq> 0" "max ?e (- 1022) = ?e" using assms(1) e by simp_all
  have c: "\<not> (1023 < ?e \<or> ?e = 1023 \<and> n * 2 ^ k = 2 ^ 53)" using e by simp
  show ?thesis
    unfolding fl_def Let_def a u_def [symmetric] m if_not_P [OF a(3)] if_not_P [OF c] y mult_1 ..
qed

lemma fl_minus: "fl (- y) = (case fl y of Fin r \<Rightarrow> Fin (- r) | NotFinite \<Rightarrow> NotFinite)"
proof (cases "y = 0")
  case True
  then show ?thesis by (simp add: fl_def)
next
  case False
  define e where "e = max (binade \<bar>y\<bar>) (- 1022)"
  define m where "m = round_half_even (\<bar>y\<bar> / 2 powi (e - 52))"
  have 1: "fl y = (if 1023 < e \<or> (e = 1023 \<and> m = 2 ^ 53) then NotFinite
                   else Fin (sgn y * of_int m * 2 powi (e - 52)))"
    using False unfolding fl_def Let_def e_def m_def by (simp only: if_False)
  have 2: "fl (- y) = (if 1023 < e \<or> (e = 1023 \<and> m = 2 ^ 53) then NotFinite
                   else Fin (sgn (- y) * of_int m * 2 powi (e - 52)))"
    using False unfolding fl_def Let_def e_def m_def abs_minus_cancel neg_equal_0_iff_equal
    by (simp only: if_False)
  show ?thesis unfolding 1 2 by (simp del: power_int_numeral)
qed

lemma fl_int:
  assumes "\<bar>n\<bar> < 2 ^ 53"
  shows "fl (of_int n) = Fin (of_int n)"
proof -
  consider "n = 0" | "0 < n" | "n < 0" by linarith
  then show ?thesis
  proof cases
    case 1
    then show ?thesis by (simp add: fl_def)
  next
    case 2
    with assms show ?thesis by (intro fl_pos_int) simp_all
  next
    case 3
    with assms have "fl (of_int (- n)) = Fin (of_int (- n))" by (intro fl_pos_int) simp_all
    then have "fl (- of_int n) = Fin (- of_int n)" by simp
    then show ?thesis using fl_minus [of "- of_int n"] by simp
  qed
qed


lemma round_half_up_near: "\<bar>of_int (round_half_up y) - y\<bar> \<le> 1 / 2"
proof -
  have lo: "of_int \<lfloor>y + 1 / 2\<rfloor> \<le> y + 1 / 2" by (rule of_int_floor_le)
  have hi: "y + 1 / 2 < of_int \<lfloor>y + 1 / 2\<rfloor> + 1" by linarith
  from lo hi show ?thesis unfolding round_half_up_def by linarith
qed

lemma round_half_up_stable:
  assumes "\<bar>y' - y\<bar> < \<bar>frac y - 1 / 2\<bar>"
  shows "round_half_up y' = round_half_up y"
proof -
  define k where "k = \<lfloor>y\<rfloor>"
  define f where "f = frac y"
  have y: "y = of_int k + f" by (simp add: k_def f_def frac_def)
  have f: "0 \<le> f" "f < 1" by (simp_all add: f_def frac_lt_1)
  consider "f < 1 / 2" | "1 / 2 < f" | "f = 1 / 2" by linarith
  then show ?thesis
  proof cases
    case 1
    with assms have d: "\<bar>y' - y\<bar> < 1 / 2 - f" by (simp add: f_def)
    have "\<lfloor>y + 1 / 2\<rfloor> = k" using 1 f y by (intro floor_unique) simp_all
    moreover have "\<lfloor>y' + 1 / 2\<rfloor> = k" using d f y by (intro floor_unique) linarith+
    ultimately show ?thesis by (simp add: round_half_up_def)
  next
    case 2
    with assms have d: "\<bar>y' - y\<bar> < f - 1 / 2" by (simp add: f_def)
    have "\<lfloor>y + 1 / 2\<rfloor> = k + 1" using 2 f y by (intro floor_unique) simp_all
    moreover have "\<lfloor>y' + 1 / 2\<rfloor> = k + 1" using d f y by (intro floor_unique) (simp, linarith+)
    ultimately show ?thesis by (simp add: round_half_up_def)
  next
    case 3
    with assms show ?thesis by (simp add: f_def)
  qed
qed

lemma abs_diff_bounds: "\<bar>a - b\<bar> \<le> c \<Longrightarrow> b - c \<le> a \<and> a \<le> b + (c::rat)"
  by linarith

lemma fl_mid:
  assumes "1 / 2 ^ 60 \<le> y" and "y < 2 ^ 70"
  shows "\<exists>r. fl y = Fin r \<and> \<bar>r - y\<bar> \<le> y / 2 ^ 53"
proof (rule fl_normal)
  have "(2::rat) powi (- 1022) \<le> 2 powi (- 60)" by (intro power_int_increasing) simp_all
  also have "\<dots> = 1 / 2 ^ 60" by (simp add: power_int_minus_divide)
  finally show "2 powi (- 1022) \<le> y" using assms(1) by (rule order_trans)
  have "(2::rat) powi 70 \<le> 2 powi 1023" by (intro power_int_increasing) simp_all
  moreover have "y < 2 powi 70" using assms(2) by simp
  ultimately show "y < 2 powi 1023" by (rule less_le_trans [rotated])
qed

lemma fl_zero: "fl 0 = Fin 0"
  by (simp add: fl_def)

lemma fl_hundredth:
  assumes "0 \<le> n" and "of_int n / 100 < (2 ^ 70 :: rat)"
  shows "\<exists>r. fl (of_int n / 100) = Fin r \<and> \<bar>r - of_int n / 100\<bar> \<le> of_int n / 100 / 2 ^ 53"
proof (cases "n = 0")
  case True
  then show ?thesis by (simp add: fl_zero)
next
  case False
  with assms(1) have "1 \<le> n" by simp
  then have "(1::rat) \<le> of_int n" by simp
  then have "1 / 2 ^ 60 \<le> (of_int n / 100 :: rat)" by simp
  then show ?thesis using assms(2) by (rule fl_mid)
qed

lemma percentage_counts:
  fixes u s :: int
  assumes s: "0 < s" "s < 2 ^ 53" and u: "0 \<le> u" "u < 2 ^ 53"
  shows "\<exists>q d r. fl (of_int u / of_int s) = Fin q \<and> fl (q * 100) = Fin d \<and>
      percentage (Fin (of_int u)) (Fin (of_int s)) = Fin r \<and>
      fl (of_int (round_half_up (d * 100)) / 100) = Fin r \<and>
      \<bar>d - of_int u / of_int s * 100\<bar> \<le> of_int u / of_int s * 100 / 2 ^ 51 \<and>
      \<bar>r - of_int (round_half_up (d * 100)) / 100\<bar>
        \<le> of_int (round_half_up (d * 100)) / 100 / 2 ^ 53"
proof -
  define y :: rat where "y = of_int u / of_int s"
  have sr: "(1::rat) \<le> of_int s" "(of_int s :: rat) < 2 ^ 53"
    using s by (simp, simp only: of_int_less_iff [symmetric, where ?'a = rat], simp)
  have ur: "(0::rat) \<le> of_int u" "(of_int u :: rat) < 2 ^ 53"
    using u by (simp, simp only: of_int_less_iff [symmetric, where ?'a = rat], simp)
  have ex: "\<exists>q d. fl y = Fin q \<and> fl (q * 100) = Fin d \<and> 0 \<le> d \<and> d < 2 ^ 63 \<and>
      \<bar>d - y * 100\<bar> \<le> y * 100 / 2 ^ 51"
  proof (cases "u = 0")
    case True
    then have "y = 0" by (simp add: y_def)
    then show ?thesis by (simp add: fl_zero)
  next
    case False
    with u have "(1::rat) \<le> of_int u" by simp
    with sr have lo: "1 / 2 ^ 53 \<le> y"
      unfolding y_def by (simp add: field_simps)
    from ur sr have hi: "y < 2 ^ 53"
      unfolding y_def by (simp add: field_simps) 
    have "1 / 2 ^ 60 \<le> y" using lo by simp
    moreover have "y < 2 ^ 70" using hi by simp
    ultimately obtain q where q: "fl y = Fin q" "\<bar>q - y\<bar> \<le> y / 2 ^ 53"
      using fl_mid by blast
    note qb = abs_diff_bounds [OF q(2)]
    have qlo: "y / 2 \<le> q" and qhi: "q \<le> 2 * y" using qb lo by simp_all
    have "1 / 2 ^ 60 \<le> q * 100" using qlo lo by simp
    moreover have "q * 100 < 2 ^ 70" using qhi hi by simp
    ultimately obtain d where d: "fl (q * 100) = Fin d" "\<bar>d - q * 100\<bar> \<le> q * 100 / 2 ^ 53"
      using fl_mid by blast
    note db = abs_diff_bounds [OF d(2)]
    have "0 \<le> d" using db qlo lo by simp
    moreover have "d < 2 ^ 63" using db qhi hi by simp
    moreover have "\<bar>d - y * 100\<bar> \<le> y * 100 / 2 ^ 51"
    proof (rule abs_leI)
      show "d - y * 100 \<le> y * 100 / 2 ^ 51" using db qb lo by simp
      show "- (d - y * 100) \<le> y * 100 / 2 ^ 51" using db qb lo by simp
    qed

    ultimately show ?thesis using q(1) d(1) by blast
  qed
  then obtain q d where q: "fl y = Fin q" and d: "fl (q * 100) = Fin d"
    and d0: "0 \<le> d" and dhi: "d < 2 ^ 63" and de: "\<bar>d - y * 100\<bar> \<le> y * 100 / 2 ^ 51"
    by blast
  define n where "n = round_half_up (d * 100)"
  have nn: "\<bar>of_int n - d * 100\<bar> \<le> 1 / 2" unfolding n_def by (rule round_half_up_near)
  have n0: "0 \<le> n" unfolding n_def round_half_up_def using d0 by simp
  have "(of_int n :: rat) / 100 < 2 ^ 70" using abs_diff_bounds [OF nn] dhi by simp
  with n0 obtain r where r: "fl (of_int n / 100) = Fin r"
      "\<bar>r - of_int n / 100\<bar> \<le> of_int n / 100 / 2 ^ 53"
    using fl_hundredth by blast
  have a: "\<bar>d\<bar> = d" "\<not> d < 0" using d0 by simp_all
  have b: "\<not> 10 ^ 21 \<le> d" using dhi by simp
  have f: "fixed2 (Fin d) = fl (of_int n / 100)"
    by (simp only: fixed2.simps a if_not_P [OF b] if_False n_def mult_1)
  have "of_int s \<noteq> (0::rat)" using s by simp
  then have "percentage (Fin (of_int u)) (Fin (of_int s)) = fixed2 (js_mul (fl y) (Fin 100))"
    by (simp add: percentage_def y_def)
  also have "\<dots> = fl (of_int n / 100)" by (simp only: q d js_mul.simps f)
  finally have p: "percentage (Fin (of_int u)) (Fin (of_int s)) = Fin r" by (simp add: r(1))
  show ?thesis
    using q d p r de unfolding y_def n_def by blast
qed

lemma both_finite_None:
  assumes "\<forall>a b rest. toks = a # b # rest \<longrightarrow> num a = NotFinite \<or> num b = NotFinite"
  shows "both_finite (destructure2 (map num toks)) = None"
proof (cases toks)
  case Nil
  then show ?thesis by simp
next
  case (Cons a rest)
  note outer = Cons
  show ?thesis
  proof (cases rest)
    case Nil
    with outer show ?thesis by (cases "num a") simp_all
  next
    case (Cons b rest')
    with outer assms have "num a = NotFinite \<or> num b = NotFinite" by simp
    with outer Cons show ?thesis by (cases "num a"; cases "num b") simp_all
  qed
qed

lemma disk_try_counts:
  assumes out: "execAsync w = Inr out" "split_ws (trim out) = a # b # rest"
    and num: "Number w a = Fin (of_int size_kb)" "Number w b = Fin (of_int used_kb)"
    and size: "0 \<le> size_kb" "size_kb < 2 ^ 43"
    and used: "0 \<le> used_kb" "used_kb < 2 ^ 43"
  shows "getDiskUsage w =
      JObj [(''totalBytes'', JNum (Fin (of_int size_kb * 1024))),
            (''usedBytes'', JNum (Fin (of_int used_kb * 1024))),
            (''freeBytes'', JNum (Fin (of_int size_kb * 1024 - of_int used_kb * 1024))),
            (''usedPercentage'',
               JNum (percentage (Fin (of_int (used_kb * 1024))) (Fin (of_int (size_kb * 1024)))))]"
proof -
  have b: "\<bar>size_kb * 1024\<bar> < 2 ^ 53" "\<bar>used_kb * 1024\<bar> < 2 ^ 53"
      "\<bar>size_kb * 1024 - used_kb * 1024\<bar> < 2 ^ 53"
    using size used by simp_all
  have sz: "js_mul (Fin (of_int size_kb)) (Fin 1024) = Fin (of_int (size_kb * 1024))"
    using fl_int [OF b(1)] by simp
  have us: "js_mul (Fin (of_int used_kb)) (Fin 1024) = Fin (of_int (used_kb * 1024))"
    using fl_int [OF b(2)] by simp
  have fr: "js_sub (Fin (of_int (size_kb * 1024))) (Fin (of_int (used_kb * 1024))) =
      Fin (of_int (size_kb * 1024 - used_kb * 1024))"
    using fl_int [OF b(3)] by simp
  have "getDiskUsage w =
      JObj [(''totalBytes'', JNum (Fin (of_int (size_kb * 1024)))),
            (''usedBytes'', JNum (Fin (of_int (used_kb * 1024)))),
            (''freeBytes'', JNum (Fin (of_int (size_kb * 1024 - used_kb * 1024)))),
            (''usedPercentage'',
               JNum (percentage (Fin (of_int (used_kb * 1024))) (Fin (of_int (size_kb * 1024)))))]"
    using out num
    by (simp add: getDiskUsage_def disk_try_def Let_def sz us fr
          del: js_mul.simps js_sub.simps of_int_mult of_int_diff)
  then show ?thesis by simp
qed

text \<open>
  C6. When the subprocess fails the disk adapter returns the error shape with the
  failure's message; when its output has no two leading fields that \<open>Number\<close> reads as
  finite numbers it returns the error shape with "Invalid disk data". When the first two
  fields are read as the kilobyte counts \<open>size_kb\<close> and \<open>used_kb\<close>, natural numbers below
  \<open>2^43\<close> (8 PiB), it returns exactly \<open>totalBytes = size_kb * 1024\<close>,
  \<open>usedBytes = used_kb * 1024\<close> and \<open>freeBytes = totalBytes - usedBytes\<close>. For a size of
  zero \<open>usedPercentage\<close> is not a finite number. Otherwise it is the double \<open>r\<close> nearest to
  the hundredth \<open>n / 100\<close>, where \<open>n / 100\<close> is the hundredth nearest to the double \<open>d\<close>
  (the larger of two) and \<open>d\<close> is what double arithmetic makes of \<open>used / size * 100\<close>:
  the quotient rounded to the double \<open>q\<close>, then \<open>q * 100\<close> rounded to \<open>d\<close>. \<open>d\<close> differs from
  the exact percentage by at most its \<open>2^51\<close>-th part, \<open>n / 100\<close> from \<open>d\<close> by at most
  0.005, \<open>r\<close> from \<open>n / 100\<close> by at most its \<open>2^53\<close>-th part; and \<open>n / 100\<close> is the exact
  percentage rounded to a hundredth (ties upwards) whenever the exact percentage is
  farther from the midpoint of two hundredths than its \<open>2^51\<close>-th part.
\<close>

theorem disk_adapter_results:
  "(execAsync w = Inl e \<longrightarrow>
      getDiskUsage w =
        JObj [(''error'', JStr ''Unable to determine disk usage''), (''details'', JStr (message e))]) \<and>
   (execAsync w = Inr out \<and>
    (\<forall>a b rest. split_ws (trim out) = a # b # rest \<longrightarrow>
        Number w a = NotFinite \<or> Number w b = NotFinite) \<longrightarrow>
      getDiskUsage w =
        JObj [(''error'', JStr ''Unable to determine disk usage''),
              (''details'', JStr ''Invalid disk data'')]) \<and>
   (execAsync w = Inr out \<and> split_ws (trim out) = a # b # rest \<and>
    Number w a = Fin (of_int size_kb) \<and> Number w b = Fin (of_int used_kb) \<and>
    0 \<le> size_kb \<and> size_kb < 2 ^ 43 \<and> 0 \<le> used_kb \<and> used_kb < 2 ^ 43 \<longrightarrow>
      (\<exists>p. getDiskUsage w =
             JObj [(''totalBytes'', JNum (Fin (of_int size_kb * 1024))),
                   (''usedBytes'', JNum (Fin (of_int used_kb * 1024))),
                   (''freeBytes'', JNum (Fin (of_int size_kb * 1024 - of_int used_kb * 1024))),
                   (''usedPercentage'', JNum p)] \<and>
           (size_kb = 0 \<longrightarrow> p = NotFinite) \<and>
           (size_kb \<noteq> 0 \<longrightarrow>
              (\<exists>q d r.
                 fl (of_int used_kb / of_int size_kb) = Fin q \<and>
                 fl (q * 100) = Fin d \<and>
                 fl (of_int (round_half_up (d * 100)) / 100) = Fin r \<and>
                 p = Fin r \<and>
                 \<bar>d - exact_percentage used_kb size_kb\<bar>
                   \<le> exact_percentage used_kb size_kb / 2 ^ 51 \<and>
                 \<bar>of_int (round_half_up (d * 100)) / 100 - d\<bar> \<le> 1 / 200 \<and>
                 \<bar>r - of_int (round_half_up (d * 100)) / 100\<bar>
                   \<le> of_int (round_half_up (d * 100)) / 100 / 2 ^ 53 \<and>
                 (exact_percentage used_kb size_kb * 100 / 2 ^ 51
                    < \<bar>frac (exact_percentage used_kb size_kb * 100) - 1 / 2\<bar> \<longrightarrow>
                  round_half_up (d * 100) =
                    round_half_up (exact_percentage used_kb size_kb * 100))))))"
proof (intro conjI impI)
  assume "execAsync w = Inl e"
  then show "getDiskUsage w =
      JObj [(''error'', JStr ''Unable to determine disk usage''), (''details'', JStr (message e))]"
    by (simp add: getDiskUsage_def disk_try_def)
next
  assume a: "execAsync w = Inr out \<and>
    (\<forall>a b rest. split_ws (trim out) = a # b # rest \<longrightarrow>
        Number w a = NotFinite \<or> Number w b = NotFinite)"
  then have "both_finite (destructure2 (map (Number w) (split_ws (trim out)))) = None"
    by (intro both_finite_None) simp
  with a show "getDiskUsage w =
      JObj [(''error'', JStr ''Unable to determine disk usage''),
            (''details'', JStr ''Invalid disk data'')]"
    by (simp add: getDiskUsage_def disk_try_def)
next
  assume h: "execAsync w = Inr out \<and> split_ws (trim out) = a # b # rest \<and>
    Number w a = Fin (of_int size_kb) \<and> Number w b = Fin (of_int used_kb) \<and>
    0 \<le> size_kb \<and> size_kb < 2 ^ 43 \<and> 0 \<le> used_kb \<and> used_kb < 2 ^ 43"
  let ?x = "exact_percentage used_kb size_kb"
  let ?p = "percentage (Fin (of_int (used_kb * 1024))) (Fin (of_int (size_kb * 1024)))"
  have g: "getDiskUsage w =
      JObj [(''totalBytes'', JNum (Fin (of_int size_kb * 1024))),
            (''usedBytes'', JNum (Fin (of_int used_kb * 1024))),
            (''freeBytes'', JNum (Fin (of_int size_kb * 1024 - of_int used_kb * 1024))),
            (''usedPercentage'', JNum ?p)]"
    using h by (intro disk_try_counts [where out = out and a = a and b = b and rest = rest]) simp_all
  have z: "?p = NotFinite" if "size_kb = 0"
    using that by (simp add: percentage_def)
  have nz: "\<exists>q d r.
      fl (of_int used_kb / of_int size_kb) = Fin q \<and> fl (q * 100) = Fin d \<and>
      fl (of_int (round_half_up (d * 100)) / 100) = Fin r \<and> ?p = Fin r \<and>
      \<bar>d - ?x\<bar> \<le> ?x / 2 ^ 51 \<and>
      \<bar>of_int (round_half_up (d * 100)) / 100 - d\<bar> \<le> 1 / 200 \<and>
      \<bar>r - of_int (round_half_up (d * 100)) / 100\<bar>
        \<le> of_int (round_half_up (d * 100)) / 100 / 2 ^ 53 \<and>
      (?x * 100 / 2 ^ 51 < \<bar>frac (?x * 100) - 1 / 2\<bar> \<longrightarrow>
         round_half_up (d * 100) = round_half_up (?x * 100))"
    if "size_kb \<noteq> 0"
  proof -
    have s: "0 < size_kb * 1024" "size_kb * 1024 < 2 ^ 53" using h that by simp_all
    have u: "0 \<le> used_kb * 1024" "used_kb * 1024 < 2 ^ 53" using h by simp_all
    have e: "(of_int (used_kb * 1024) :: rat) / of_int (size_kb * 1024) =
        of_int used_kb / of_int size_kb"
      by simp
    from percentage_counts [OF s u]
    obtain q d r where q: "fl (of_int used_kb / of_int size_kb) = Fin q"
      and d: "fl (q * 100) = Fin d"
      and p: "?p = Fin r"
      and r: "fl (of_int (round_half_up (d * 100)) / 100) = Fin r"
      and de: "\<bar>d - ?x\<bar> \<le> ?x / 2 ^ 51"
      and re: "\<bar>r - of_int (round_half_up (d * 100)) / 100\<bar>
          \<le> of_int (round_half_up (d * 100)) / 100 / 2 ^ 53"
      unfolding e exact_percentage_def by blast
    note nb = abs_diff_bounds [OF round_half_up_near [of "d * 100"]]
    have ne: "\<bar>of_int (round_half_up (d * 100)) / 100 - d\<bar> \<le> 1 / 200"
    proof (rule abs_leI)
      show "of_int (round_half_up (d * 100)) / 100 - d \<le> 1 / 200" using nb by simp
      show "- (of_int (round_half_up (d * 100)) / 100 - d) \<le> 1 / 200" using nb by simp
    qed
    have st: "round_half_up (d * 100) = round_half_up (?x * 100)"
      if "?x * 100 / 2 ^ 51 < \<bar>frac (?x * 100) - 1 / 2\<bar>"
    proof (rule round_half_up_stable)
      note xb = abs_diff_bounds [OF de]
      have "\<bar>d * 100 - ?x * 100\<bar> \<le> ?x * 100 / 2 ^ 51"
      proof (rule abs_leI)
        show "d * 100 - ?x * 100 \<le> ?x * 100 / 2 ^ 51" using xb by simp
        show "- (d * 100 - ?x * 100) \<le> ?x * 100 / 2 ^ 51" using xb by simp
      qed
      with that show "\<bar>d * 100 - ?x * 100\<bar> < \<bar>frac (?x * 100) - 1 / 2\<bar>"
        by (rule le_less_trans [rotated])
    qed
    from q d r p de ne re st show ?thesis by blast
  qed
  from g z nz show "\<exists>p. getDiskUsage w =
             JObj [(''totalBytes'', JNum (Fin (of_int size_kb * 1024))),
                   (''usedBytes'', JNum (Fin (of_int used_kb * 1024))),
                   (''freeBytes'', JNum (Fin (of_int size_kb * 1024 - of_int used_kb * 1024))),
                   (''usedPercentage'', JNum p)] \<and>
           (size_kb = 0 \<longrightarrow> p = NotFinite) \<and>
           (size_kb \<noteq> 0 \<longrightarrow>
              (\<exists>q d r.
                 fl (of_int used_kb / of_int size_kb) = Fin q \<and>
                 fl (q * 100) = Fin d \<and>
                 fl (of_int (round_half_up (d * 100)) / 100) = Fin r \<and>
                 p = Fin r \<and>
                 \<bar>d - exact_percentage used_kb size_kb\<bar>
                   \<le> exact_percentage used_kb size_kb / 2 ^ 51 \<and>
                 \<bar>of_int (round_half_up (d * 100)) / 100 - d\<bar> \<le> 1 / 200 \<and>
                 \<bar>r - of_int (round_half_up (d * 100)) / 100\<bar>
                   \<le> of_int (round_half_up (d * 100)) / 100 / 2 ^ 53 \<and>
                 (exact_percentage used_kb size_kb * 100 / 2 ^ 51
                    < \<bar>frac (exact_percentage used_kb size_kb * 100) - 1 / 2\<bar> \<longrightarrow>
                  round_half_up (d * 100) =
                    round_half_up (exact_percentage used_kb size_kb * 100))))"
    by blast
qed

theorem disk_adapter_results_witness:
  "getDiskUsage disk_failed =
     JObj [(''error'', JStr ''Unable to determine disk usage''),
           (''details'', JStr ''Command failed: df'')] \<and>
   getDiskUsage disk_garbled =
     JObj [(''error'', JStr ''Unable to determine disk usage''),
           (''details'', JStr ''Invalid disk data'')] \<and>
   getDiskUsage sample_world =
     JObj [(''totalBytes'', JNum (Fin 42140401664)),
           (''usedBytes'', JNum (Fin 20858863616)),
           (''freeBytes'', JNum (Fin 21281538048)),
           (''usedPercentage'', JNum (Fin (99 / 2)))] \<and>
   getDiskUsage disk_empty =
     JObj [(''totalBytes'', JNum (Fin 0)),
           (''usedBytes'', JNum (Fin 0)),
           (''freeBytes'', JNum (Fin 0)),
           (''usedPercentage'', JNum NotFinite)]"
proof -
  have f: "execAsync disk_failed = Inl (Error ''Command failed: df'')"
    by (simp add: disk_failed_def)
  have g1: "execAsync disk_garbled = Inr ''df: not found''"
    by (simp add: disk_garbled_def)
  have g2: "split_ws (trim ''df: not found'') = [''df:'', ''not'', ''found'']" by code_simp
  have g3: "Number disk_garbled ''df:'' = NotFinite" by code_simp
  have g: "execAsync disk_garbled = Inr ''df: not found'' \<and>
      (\<forall>a b rest. split_ws (trim ''df: not found'') = a # b # rest \<longrightarrow>
         Number disk_garbled a = NotFinite \<or> Number disk_garbled b = NotFinite)"
    using g1 g3 by (simp add: g2)
  have s1: "execAsync sample_world = Inr ('' 41152736 20369984'' @ [CHR 0x0A])"
    by (simp add: sample_world_def)
  have s2: "split_ws (trim ('' 41152736 20369984'' @ [CHR 0x0A])) = ''41152736'' # ''20369984'' # []"
    by code_simp
  have s3: "Number sample_world ''41152736'' = Fin (of_int 41152736)" by code_simp
  have s4: "Number sample_world ''20369984'' = Fin (of_int 20369984)" by code_simp
  have s5: "(0::int) \<le> 41152736 \<and> (41152736::int) < 2 ^ 43 \<and>
      (0::int) \<le> 20369984 \<and> (20369984::int) < 2 ^ 43 \<and> (41152736::int) \<noteq> 0"
    by simp
  have s6: "exact_percentage 20369984 41152736 * 100 / 2 ^ 51
      < \<bar>frac (exact_percentage 20369984 41152736 * 100) - 1 / 2\<bar>"
    by code_simp
  have s7: "round_half_up (exact_percentage 20369984 41152736 * 100) = 4950" by code_simp
  have s8: "fl (of_int 4950 / 100) = Fin (99 / 2)" by code_simp
  have e1: "execAsync disk_empty = Inr (''0 0'' @ [CHR 0x0A])"
    by (simp add: disk_empty_def)
  have e2: "split_ws (trim (''0 0'' @ [CHR 0x0A])) = ''0'' # ''0'' # []" by code_simp
  have e3: "Number disk_empty ''0'' = Fin (of_int 0)" by code_simp
  from disk_adapter_results
    [where w = disk_failed and e = "Error ''Command failed: df''"] f
  have c1: "getDiskUsage disk_failed =
     JObj [(''error'', JStr ''Unable to determine disk usage''),
           (''details'', JStr ''Command failed: df'')]"
    by simp
  from disk_adapter_results [where w = disk_garbled and out = "''df: not found''"] g
  have c2: "getDiskUsage disk_garbled =
     JObj [(''error'', JStr ''Unable to determine disk usage''),
           (''details'', JStr ''Invalid disk data'')]"
    by blast
  from disk_adapter_results
    [where w = sample_world and out = "'' 41152736 20369984'' @ [CHR 0x0A]"
       and a = "''41152736''" and b = "''20369984''" and rest = "[]"
       and size_kb = 41152736 and used_kb = 20369984] s1 s2 s3 s4 s5
  obtain p r d where p:
      "getDiskUsage sample_world =
        JObj [(''totalBytes'', JNum (Fin (of_int 41152736 * 1024))),
              (''usedBytes'', JNum (Fin (of_int 20369984 * 1024))),
              (''freeBytes'', JNum (Fin (of_int 41152736 * 1024 - of_int 20369984 * 1024))),
              (''usedPercentage'', JNum p)]"
      "p = Fin r" "fl (of_int (round_half_up (d * 100)) / 100) = Fin r"
      "exact_percentage 20369984 41152736 * 100 / 2 ^ 51
         < \<bar>frac (exact_percentage 20369984 41152736 * 100) - 1 / 2\<bar> \<longrightarrow>
       round_half_up (d * 100) = round_half_up (exact_percentage 20369984 41152736 * 100)"
    by blast
  from p(4) s6 s7 have "round_half_up (d * 100) = 4950" by simp
  with p(3) s8 have "r = 99 / 2" by simp
  with p(1,2) have c3: "getDiskUsage sample_world =
     JObj [(''totalBytes'', JNum (Fin 42140401664)),
           (''usedBytes'', JNum (Fin 20858863616)),
           (''freeBytes'', JNum (Fin 21281538048)),
           (''usedPercentage'', JNum (Fin (99 / 2)))]"
    by simp
  from disk_adapter_results
    [where w = disk_empty and out = "''0 0'' @ [CHR 0x0A]"
       and a = "''0''" and b = "''0''" and rest = "[]"
       and size_kb = 0 and used_kb = 0] e1 e2 e3
  have c4: "getDiskUsage disk_empty =
     JObj [(''totalBytes'', JNum (Fin 0)),
           (''usedBytes'', JNum (Fin 0)),
           (''freeBytes'', JNum (Fin 0)),
           (''usedPercentage'', JNum NotFinite)]"
    by auto
  from c1 c2 c3 c4 show ?thesis by blast
qed

text \<open>
  C6 as stated fails on ordinary outputs of the subprocess: the percentage is not always
  the exact \<open>used / size * 100\<close> rounded to two decimals. For
  a disk of 40 GiB with 5.75 GiB used the exact percentage is 14.375, which rounds to
  14.38, and the adapter returns the double nearest to 14.37: the quotient 0.14375 is no
  double, and the product of the nearest double and 100 is a double just below 14.375.
  For \<open>5208959304834\<close> and \<open>4620607351353\<close> kilobytes the exact percentage lies above
  88.705, nearer to 88.71 than to 88.70, and the adapter returns the double nearest to
  88.70, which is farther than 0.005 from the exact percentage.
\<close>

theorem disk_percentage_not_exact_rounding:
  "getDiskUsage disk_eighth =
     JObj [(''totalBytes'', JNum (Fin 42949672960)),
           (''usedBytes'', JNum (Fin 6174015488)),
           (''freeBytes'', JNum (Fin 36775657472)),
           (''usedPercentage'', JNum (fl (1437 / 100)))] \<and>
   exact_percentage 6029312 41943040 = 14375 / 1000 \<and>
   round_half_up (exact_percentage 6029312 41943040 * 100) = 1438 \<and>
   round_half_even (exact_percentage 6029312 41943040 * 100) = 1438 \<and>
   fl (1437 / 100) \<noteq> fl (1438 / 100) \<and>
   getDiskUsage disk_petabytes =
     JObj [(''totalBytes'', JNum (Fin 5333974328150016)),
           (''usedBytes'', JNum (Fin 4731501927785472)),
           (''freeBytes'', JNum (Fin 602472400364544)),
           (''usedPercentage'', JNum (fl (8870 / 100)))] \<and>
   \<bar>8871 / 100 - exact_percentage 4620607351353 5208959304834\<bar> < 1 / 200 \<and>
   (\<exists>r. fl (8870 / 100) = Fin r \<and>
        1 / 200 < \<bar>r - exact_percentage 4620607351353 5208959304834\<bar>)"
proof -
  have 1: "getDiskUsage disk_eighth =
     JObj [(''totalBytes'', JNum (Fin 42949672960)),
           (''usedBytes'', JNum (Fin 6174015488)),
           (''freeBytes'', JNum (Fin 36775657472)),
           (''usedPercentage'', JNum (fl (1437 / 100)))]"
    by code_simp
  have 2: "exact_percentage 6029312 41943040 = 14375 / 1000" by code_simp
  have 3: "round_half_up (exact_percentage 6029312 41943040 * 100) = 1438" by code_simp
  have 4: "round_half_even (exact_percentage 6029312 41943040 * 100) = 1438" by code_simp
  have 5: "fl (1437 / 100) \<noteq> fl (1438 / 100)" by code_simp
  have 6: "getDiskUsage disk_petabytes =
     JObj [(''totalBytes'', JNum (Fin 5333974328150016)),
           (''usedBytes'', JNum (Fin 4731501927785472)),
           (''freeBytes'', JNum (Fin 602472400364544)),
           (''usedPercentage'', JNum (fl (8870 / 100)))]"
    by code_simp
  have 7: "\<bar>8871 / 100 - exact_percentage 4620607351353 5208959304834\<bar> < 1 / 200"
    by code_simp
  have 8: "fl (8870 / 100) = Fin (6241707608558797 / 70368744177664)" by code_simp
  have 9: "1 / 200 < \<bar>6241707608558797 / 70368744177664
      - exact_percentage 4620607351353 5208959304834\<bar>"
    by code_simp
  from 8 9 have 10: "\<exists>r. fl (8870 / 100) = Fin r \<and>
        1 / 200 < \<bar>r - exact_percentage 4620607351353 5208959304834\<bar>"
    by blast
  from 1 2 3 4 5 6 7 10 show ?thesis by blast
qed

subsection \<open>Result shapes\<close>

lemma keys_getDiskUsage:
  "keys (getDiskUsage w) = disk_keys \<or> error_details_shape (getDiskUsage w)"
  by (simp add: getDiskUsage_def disk_try_def disk_keys_def error_details_shape_def Let_def
      split: sum.splits option.splits prod.splits)

lemma keys_repo_summary: "repo_summary r = Inr v \<Longrightarrow> keys v = repo_keys"
  by (auto simp: repo_summary_def repo_keys_def split: sum.splits)

lemma keys_map_throwing:
  "map_throwing repo_summary xs = Inr rs \<Longrightarrow> list_all (\<lambda>r. keys r = repo_keys) rs"
proof (induction xs arbitrary: rs)
  case Nil
  then show ?case by simp
next
  case (Cons x xs)
  then show ?case by (auto simp: keys_repo_summary split: sum.splits)
qed

lemma shape_map_repos: "map_repos data = Inr g \<Longrightarrow> repo_list_shape g"
  by (auto simp: map_repos_def keys_map_throwing split: json.splits sum.splits)

lemma keys_weather_summary: "weather_summary data = Inr x \<Longrightarrow> keys x = weather_keys"
  by (auto simp: weather_summary_def weather_keys_def Let_def split: sum.splits)

lemma github_result_cases:
  assumes "getGithubRepos cfg w username = Inr g"
  shows "(github_user cfg username = [] \<and> error_only_shape g) \<or>
         (github_user cfg username \<noteq> [] \<and>
          (\<exists>r. fetch w (github_request cfg (github_user cfg username)) = Inr r \<and>
               ((\<not> response_ok r \<and> error_details_shape g) \<or>
                (response_ok r \<and> repo_list_shape g))))"
proof (cases "github_user cfg username = []")
  case True
  with assms show ?thesis by (auto simp: getGithubRepos_def error_only_shape_def)
next
  case False
  with assms have g: "github_respond (fetch w (github_request cfg (github_user cfg username))) = Inr g"
    by (simp add: getGithubRepos_def)
  then obtain r where r: "fetch w (github_request cfg (github_user cfg username)) = Inr r"
    by (cases "fetch w (github_request cfg (github_user cfg username))")
      (simp_all add: github_respond_def)
  show ?thesis
  proof (cases "response_ok r")
    case True
    with g r have "repo_list_shape g"
      by (auto simp: github_respond_def shape_map_repos split: sum.splits)
    with False r True show ?thesis by blast
  next
    case nok: False
    with g r have "error_details_shape g"
      by (auto simp: github_respond_def error_details_shape_def split: sum.splits)
    with False r nok show ?thesis by blast
  qed
qed

lemma weather_result_cases:
  assumes "getWeather cfg w = Inr x"
  shows "((WEATHER_LAT cfg = [] \<or> WEATHER_LON cfg = []) \<and> error_only_shape x) \<or>
         (WEATHER_LAT cfg \<noteq> [] \<and> WEATHER_LON cfg \<noteq> [] \<and>
          (\<exists>r. fetch w (weather_request cfg) = Inr r \<and>
               ((\<not> response_ok r \<and> error_details_shape x) \<or>
                (response_ok r \<and> keys x = weather_keys))))"
proof (cases "WEATHER_LAT cfg = [] \<or> WEATHER_LON cfg = []")
  case True
  with assms show ?thesis by (auto simp: getWeather_def error_only_shape_def)
next
  case False
  then have c: "WEATHER_LAT cfg \<noteq> []" "WEATHER_LON cfg \<noteq> []" by simp_all
  from assms c obtain r where r: "fetch w (weather_request cfg) = Inr r"
    by (cases "fetch w (weather_request cfg)") (simp_all add: getWeather_def)
  show ?thesis
  proof (cases "response_ok r")
    case True
    with assms c r have "keys x = weather_keys"
      by (auto simp: getWeather_def keys_weather_summary split: sum.splits)
    with c r True show ?thesis by blast
  next
    case nok: False
    with assms c r have "error_details_shape x"
      by (auto simp: getWeather_def error_details_shape_def split: sum.splits)
    with c r nok show ?thesis by blast
  qed
qed

text \<open>
  C4, as the code has it. Every value an adapter returns has the success shape of its
  result type or an error shape, never both: no success shape has the key \<open>error\<close>. The
  disk adapter returns its success shape when the body of its \<open>try\<close> returns and the keys
  \<open>error\<close> and \<open>details\<close> when it throws. A remote
  adapter returns the key \<open>error\<close> alone exactly on a configuration failure, the keys
  \<open>error\<close> and \<open>details\<close> exactly for a response outside 2xx, and its success shape
  exactly for a response inside 2xx; the configuration failures and the errors for a
  response outside 2xx are the values written out below.
\<close>

theorem adapter_result_shapes:
  "(keys (getDiskUsage w) = disk_keys \<or> error_details_shape (getDiskUsage w)) \<and>
   (getGithubRepos cfg w username = Inr g \<longrightarrow>
      (github_user cfg username = [] \<and> error_only_shape g) \<or>
      (github_user cfg username \<noteq> [] \<and>
       (\<exists>r. fetch w (github_request cfg (github_user cfg username)) = Inr r \<and>
            ((\<not> response_ok r \<and> error_details_shape g) \<or>
             (response_ok r \<and> repo_list_shape g))))) \<and>
   (getWeather cfg w = Inr x \<longrightarrow>
      ((WEATHER_LAT cfg = [] \<or> WEATHER_LON cfg = []) \<and> error_only_shape x) \<or>
      (WEATHER_LAT cfg \<noteq> [] \<and> WEATHER_LON cfg \<noteq> [] \<and>
       (\<exists>r. fetch w (weather_request cfg) = Inr r \<and>
            ((\<not> response_ok r \<and> error_details_shape x) \<or>
             (response_ok r \<and> keys x = weather_keys))))) \<and>
   (github_user cfg username = [] \<longrightarrow>
      getGithubRepos cfg w username = Inr (JObj [(''error'', JStr ''Missing GitHub username'')])) \<and>
   (WEATHER_LAT cfg = [] \<or> WEATHER_LON cfg = [] \<longrightarrow>
      getWeather cfg w =
        Inr (JObj [(''error'',
          JStr ''Missing WEATHER_LATITUDE or WEATHER_LONGITUDE environment variables.'')])) \<and>
   (github_user cfg username \<noteq> [] \<and>
    fetch w (github_request cfg (github_user cfg username)) = Inr r \<and>
    \<not> response_ok r \<and> resp_text r = Inr msg \<longrightarrow>
      getGithubRepos cfg w username =
        Inr (JObj [(''error'', JStr (''GitHub API error: '' @ show_nat (resp_status r))),
                   (''details'', JStr msg)])) \<and>
   (WEATHER_LAT cfg \<noteq> [] \<and> WEATHER_LON cfg \<noteq> [] \<and>
    fetch w (weather_request cfg) = Inr r' \<and>
    \<not> response_ok r' \<and> resp_text r' = Inr msg' \<longrightarrow>
      getWeather cfg w =
        Inr (JObj [(''error'', JStr (''Weather API error: '' @ show_nat (resp_status r'))),
                   (''details'', JStr msg')])) \<and>
   (disk_try w = Inl e \<longrightarrow>
      getDiskUsage w =
        JObj [(''error'', JStr ''Unable to determine disk usage''),
              (''details'', JStr (message e))]) \<and>
   (disk_try w = Inr v \<longrightarrow> getDiskUsage w = v \<and> keys v = disk_keys) \<and>
   ''error'' \<notin> set disk_keys \<and> ''error'' \<notin> set repo_keys \<and> ''error'' \<notin> set weather_keys"
proof (intro conjI impI)
  show "keys (getDiskUsage w) = disk_keys \<or> error_details_shape (getDiskUsage w)"
    by (rule keys_getDiskUsage)
  show "(github_user cfg username = [] \<and> error_only_shape g) \<or>
      (github_user cfg username \<noteq> [] \<and>
       (\<exists>r. fetch w (github_request cfg (github_user cfg username)) = Inr r \<and>
            ((\<not> response_ok r \<and> error_details_shape g) \<or>
             (response_ok r \<and> repo_list_shape g))))"
    if "getGithubRepos cfg w username = Inr g" using that by (rule github_result_cases)
  show "((WEATHER_LAT cfg = [] \<or> WEATHER_LON cfg = []) \<and> error_only_shape x) \<or>
      (WEATHER_LAT cfg \<noteq> [] \<and> WEATHER_LON cfg \<noteq> [] \<and>
       (\<exists>r. fetch w (weather_request cfg) = Inr r \<and>
            ((\<not> response_ok r \<and> error_details_shape x) \<or>
             (response_ok r \<and> keys x = weather_keys))))"
    if "getWeather cfg w = Inr x" using that by (rule weather_result_cases)
  show "getGithubRepos cfg w username = Inr (JObj [(''error'', JStr ''Missing GitHub username'')])"
    if "github_user cfg username = []" using that by (simp add: getGithubRepos_def)
  show "getWeather cfg w =
        Inr (JObj [(''error'',
          JStr ''Missing WEATHER_LATITUDE or WEATHER_LONGITUDE environment variables.'')])"
    if "WEATHER_LAT cfg = [] \<or> WEATHER_LON cfg = []" using that by (auto simp: getWeather_def)
  show "getGithubRepos cfg w username =
        Inr (JObj [(''error'', JStr (''GitHub API error: '' @ show_nat (resp_status r))),
                   (''details'', JStr msg)])"
    if "github_user cfg username \<noteq> [] \<and>
      fetch w (github_request cfg (github_user cfg username)) = Inr r \<and>
      \<not> response_ok r \<and> resp_text r = Inr msg"
    using that by (simp add: getGithubRepos_def github_respond_def)
  show "getWeather cfg w =
        Inr (JObj [(''error'', JStr (''Weather API error: '' @ show_nat (resp_status r'))),
                   (''details'', JStr msg')])"
    if "WEATHER_LAT cfg \<noteq> [] \<and> WEATHER_LON cfg \<noteq> [] \<and>
      fetch w (weather_request cfg) = Inr r' \<and>
      \<not> response_ok r' \<and> resp_text r' = Inr msg'"
    using that by (simp add: getWeather_def)
  show "getDiskUsage w =
        JObj [(''error'', JStr ''Unable to determine disk usage''),
              (''details'', JStr (message e))]"
    if "disk_try w = Inl e" using that by (simp add: getDiskUsage_def)
  show "getDiskUsage w = v" if "disk_try w = Inr v" using that by (simp add: getDiskUsage_def)
  show "keys v = disk_keys" if "disk_try w = Inr v"
    using that
    by (auto simp: disk_try_def disk_keys_def Let_def split: sum.splits option.splits prod.splits)
  show "''error'' \<notin> set disk_keys" by (simp add: disk_keys_def)
  show "''error'' \<notin> set repo_keys" by (simp add: repo_keys_def)
  show "''error'' \<notin> set weather_keys" by (simp add: weather_keys_def)
qed

theorem adapter_result_shapes_witness:
  "getGithubRepos unconfigured sample_world None =
     Inr (JObj [(''error'', JStr ''Missing GitHub username'')]) \<and>
   error_only_shape (JObj [(''error'', JStr ''Missing GitHub username'')]) \<and>
   getWeather unconfigured sample_world =
     Inr (JObj [(''error'',
       JStr ''Missing WEATHER_LATITUDE or WEATHER_LONGITUDE environment variables.'')]) \<and>
   error_only_shape (JObj [(''error'',
       JStr ''Missing WEATHER_LATITUDE or WEATHER_LONGITUDE environment variables.'')]) \<and>
   getGithubRepos sample_config remotes_forbidden None =
     Inr (JObj [(''error'', JStr (''GitHub API error: '' @ show_nat 403)),
                (''details'', JStr ''rate limit exceeded'')]) \<and>
   getWeather sample_config remotes_forbidden =
     Inr (JObj [(''error'', JStr (''Weather API error: '' @ show_nat 403)),
                (''details'', JStr ''rate limit exceeded'')]) \<and>
   getDiskUsage disk_failed =
     JObj [(''error'', JStr ''Unable to determine disk usage''),
           (''details'', JStr ''Command failed: df'')] \<and>
   keys (getDiskUsage sample_world) = disk_keys \<and>
   (\<exists>x. getWeather sample_config sample_world = Inr x \<and> keys x = weather_keys)"
proof -
  let ?g = "JObj [(''error'', JStr ''Missing GitHub username'')]"
  let ?x = "JObj [(''error'',
       JStr ''Missing WEATHER_LATITUDE or WEATHER_LONGITUDE environment variables.'')]"
  let ?r = "Response 403 (Inr ''rate limit exceeded'') (Inl (Error ''Unexpected token''))"
  note t = adapter_result_shapes
    [where cfg = unconfigured and w = sample_world and username = None and g = ?g and x = ?x]
  note f = adapter_result_shapes
    [where cfg = sample_config and w = remotes_forbidden and username = None
       and r = ?r and msg = "''rate limit exceeded''"
       and r' = ?r and msg' = "''rate limit exceeded''"]
  note d = adapter_result_shapes [where w = disk_failed and e = "Error ''Command failed: df''"]
  have u: "github_user unconfigured None = []"
    by (simp add: github_user_def unconfigured_def)
  have l: "WEATHER_LAT unconfigured = [] \<or> WEATHER_LON unconfigured = []"
    by (simp add: unconfigured_def)
  from t u have g: "getGithubRepos unconfigured sample_world None = Inr ?g" by blast
  from t l have x: "getWeather unconfigured sample_world = Inr ?x" by blast
  from t g u have gs: "error_only_shape ?g" by blast
  from t x l have xs: "error_only_shape ?x" by blast
  have hg: "github_user sample_config None \<noteq> [] \<and>
      fetch remotes_forbidden (github_request sample_config (github_user sample_config None)) =
        Inr ?r \<and>
      \<not> response_ok ?r \<and> resp_text ?r = Inr ''rate limit exceeded''"
    by code_simp
  have hw: "WEATHER_LAT sample_config \<noteq> [] \<and> WEATHER_LON sample_config \<noteq> [] \<and>
      fetch remotes_forbidden (weather_request sample_config) = Inr ?r \<and>
      \<not> response_ok ?r \<and> resp_text ?r = Inr ''rate limit exceeded''"
    by code_simp
  have s: "resp_status ?r = 403" by simp
  from f hg have fg: "getGithubRepos sample_config remotes_forbidden None =
     Inr (JObj [(''error'', JStr (''GitHub API error: '' @ show_nat 403)),
                (''details'', JStr ''rate limit exceeded'')])"
    unfolding s by blast
  from f hw have fw: "getWeather sample_config remotes_forbidden =
     Inr (JObj [(''error'', JStr (''Weather API error: '' @ show_nat 403)),
                (''details'', JStr ''rate limit exceeded'')])"
    unfolding s by blast
  have dt: "disk_try disk_failed = Inl (Error ''Command failed: df'')"
    by (simp add: disk_try_def disk_failed_def)
  from d dt have dd: "getDiskUsage disk_failed =
     JObj [(''error'', JStr ''Unable to determine disk usage''),
           (''details'', JStr ''Command failed: df'')]"
    by simp
  have "\<not> isl (disk_try sample_world)" by code_simp
  then obtain v where v: "disk_try sample_world = Inr v"
    by (cases "disk_try sample_world") simp_all
  from adapter_result_shapes [where w = sample_world and v = v] v
  have dk: "keys (getDiskUsage sample_world) = disk_keys" by simp
  have wl: "WEATHER_LAT sample_config \<noteq> [] \<and> WEATHER_LON sample_config \<noteq> []"
    by (simp add: sample_config_def)
  have wf: "fetch sample_world (weather_request sample_config) =
      Inr (Response 200 (Inr ''{}'') (Inr sample_weather))"
    by code_simp
  have wk: "response_ok (Response 200 (Inr ''{}'') (Inr sample_weather))"
    by (simp add: response_ok_def)
  have "\<not> isl (getWeather sample_config sample_world)" by code_simp
  then obtain y where y: "getWeather sample_config sample_world = Inr y"
    by (cases "getWeather sample_config sample_world") simp_all
  from adapter_result_shapes [where cfg = sample_config and w = sample_world and x = y] y wl wf wk
  have "keys y = weather_keys" by auto
  with y have ws: "\<exists>x. getWeather sample_config sample_world = Inr x \<and> keys x = weather_keys"
    by blast
  from g gs x xs fg fw dd dk ws show ?thesis by blast
qed

text \<open>C4 as stated fails on a configuration failure: the value has no \<open>details\<close>
  field.\<close>

theorem config_failure_without_details:
  "getGithubRepos unconfigured sample_world None =
     Inr (JObj [(''error'', JStr ''Missing GitHub username'')]) \<and>
   \<not> has_key ''details'' (JObj [(''error'', JStr ''Missing GitHub username'')])"
  by code_simp

subsection \<open>Exceptions that leave the remote adapters\<close>

text \<open>
  C2 at its failing input. When \<open>fetch\<close> rejects (the remote cannot be reached), the
  GitHub adapter and the weather adapter reject with the same exception: neither has a
  \<open>try\<close> around the call, unlike the disk adapter.
\<close>

theorem github_rejection_escapes:
  "(github_user cfg username \<noteq> [] \<and>
    fetch w (github_request cfg (github_user cfg username)) = Inl e \<longrightarrow>
      getGithubRepos cfg w username = Inl e) \<and>
   (WEATHER_LAT cfg \<noteq> [] \<and> WEATHER_LON cfg \<noteq> [] \<and> fetch w (weather_request cfg) = Inl e' \<longrightarrow>
      getWeather cfg w = Inl e')"
  by (simp add: getGithubRepos_def github_respond_def getWeather_def)

theorem github_rejection_escapes_witness:
  "getGithubRepos sample_config sample_world None = Inl (Error ''fetch failed'') \<and>
   getWeather sample_config offline = Inl (Error ''fetch failed'')"
proof -
  have a: "github_user sample_config None \<noteq> [] \<and>
      fetch sample_world (github_request sample_config (github_user sample_config None)) =
        Inl (Error ''fetch failed'')"
    by code_simp
  have b: "WEATHER_LAT sample_config \<noteq> [] \<and> WEATHER_LON sample_config \<noteq> [] \<and>
      fetch offline (weather_request sample_config) = Inl (Error ''fetch failed'')"
    by code_simp
  from a github_rejection_escapes
    [where cfg = sample_config and w = sample_world and username = None
       and e = "Error ''fetch failed''"]
  have c: "getGithubRepos sample_config sample_world None = Inl (Error ''fetch failed'')"
    by blast
  from b github_rejection_escapes
    [where cfg = sample_config and w = offline and e' = "Error ''fetch failed''"]
  have d: "getWeather sample_config offline = Inl (Error ''fetch failed'')"
    by blast
  from c d show ?thesis by blast
qed

text \<open>
  C1 at its failing input. When the GitHub \<open>fetch\<close> rejects, \<open>buildDashboard\<close> rejects:
  with the exception of that \<open>fetch\<close> when the weather call returns a value (the case of
  the claim, in which the disk query and the weather call succeed) or rejects later, and
  with the weather call's exception when that one rejects first. The handler then
  answers 500 instead of a composite snapshot.
\<close>

theorem dashboard_rejects_with_github:
  "github_user cfg username \<noteq> [] \<and>
   fetch w (github_request cfg (github_user cfg username)) = Inl e \<longrightarrow>
     (\<exists>e'. buildDashboard cfg w username = Inl e') \<and>
     ((\<exists>x. getWeather cfg w = Inr x) \<or> \<not> weather_rejects_first w \<longrightarrow>
        buildDashboard cfg w username = Inl e) \<and>
     (\<forall>e'. getWeather cfg w = Inl e' \<and> weather_rejects_first w \<longrightarrow>
        buildDashboard cfg w username = Inl e')"
proof
  assume a: "github_user cfg username \<noteq> [] \<and>
    fetch w (github_request cfg (github_user cfg username)) = Inl e"
  then have g: "getGithubRepos cfg w username = Inl e"
    by (simp add: getGithubRepos_def github_respond_def)
  show "(\<exists>e'. buildDashboard cfg w username = Inl e') \<and>
     ((\<exists>x. getWeather cfg w = Inr x) \<or> \<not> weather_rejects_first w \<longrightarrow>
        buildDashboard cfg w username = Inl e) \<and>
     (\<forall>e'. getWeather cfg w = Inl e' \<and> weather_rejects_first w \<longrightarrow>
        buildDashboard cfg w username = Inl e')"
    by (cases "getWeather cfg w") (auto simp: buildDashboard_def g)
qed

theorem dashboard_rejects_with_github_witness:
  "\<not> has_key ''error'' (getDiskUsage sample_world) \<and>
   getWeather sample_config sample_world =
     Inr (JObj
       [(''temperature'', JNum (Fin 21)),
        (''windSpeed'', JNum (Fin 7)),
        (''weatherCode'', JNum (Fin 3)),
        (''time'', JStr ''2024-05-01T12:00''),
        (''timezone'', JStr ''GMT''),
        (''apparentTemperature'', JNum (Fin 20)),
        (''humidity'', JNum (Fin 55))]) \<and>
   buildDashboard sample_config sample_world None = Inl (Error ''fetch failed'') \<and>
   status (server sample_config sample_world
     \<lparr> req_method = ''GET'', req_path = ''/api/dashboard'', req_user = None \<rparr>) = 500"
proof -
  have a: "github_user sample_config None \<noteq> [] \<and>
      fetch sample_world (github_request sample_config (github_user sample_config None)) =
        Inl (Error ''fetch failed'')"
    by code_simp
  from a dashboard_rejects_with_github
    [where cfg = sample_config and w = sample_world and username = None
       and e = "Error ''fetch failed''"]
  have c: "(\<exists>x. getWeather sample_config sample_world = Inr x) \<or>
      \<not> weather_rejects_first sample_world \<longrightarrow>
        buildDashboard sample_config sample_world None = Inl (Error ''fetch failed'')"
    by blast
  have d: "\<not> has_key ''error'' (getDiskUsage sample_world)" by code_simp
  have x: "getWeather sample_config sample_world =
     Inr (JObj
       [(''temperature'', JNum (Fin 21)),
        (''windSpeed'', JNum (Fin 7)),
        (''weatherCode'', JNum (Fin 3)),
        (''time'', JStr ''2024-05-01T12:00''),
        (''timezone'', JStr ''GMT''),
        (''apparentTemperature'', JNum (Fin 20)),
        (''humidity'', JNum (Fin 55))])"
    by code_simp
  have s: "status (server sample_config sample_world
     \<lparr> req_method = ''GET'', req_path = ''/api/dashboard'', req_user = None \<rparr>) = 500"
    by code_simp
  from c x have b: "buildDashboard sample_config sample_world None = Inl (Error ''fetch failed'')"
    by blast
  from b d x s show ?thesis by blast
qed


subsection \<open>Static paths\<close>

lemma render_Nil [simp]: "render [] = []"
  by (simp add: render_def)

lemma render_Cons [simp]: "render (s # segs) = CHR ''/'' # s @ render segs"
  by (simp add: render_def)

lemma render_append [simp]: "render (xs @ ys) = render xs @ render ys"
  by (simp add: render_def)

lemma split_on_not_Nil [simp]: "split_on P s \<noteq> []"
  by (induction s) (auto split: list.splits)

lemma split_on_no_sep: "\<forall>c\<in>set s. \<not> P c \<Longrightarrow> split_on P (s @ t) = (s @ hd (split_on P t)) # tl (split_on P t)"
proof (induction s)
  case Nil
  then show ?case by simp
next
  case (Cons c s)
  then show ?case by (simp split: list.splits)
qed

lemma split_on_sep_append:
  "P c \<Longrightarrow> split_on P (s @ c # t) = split_on P s @ split_on P t"
proof (induction s)
  case Nil
  then show ?case by simp
next
  case (Cons a s)
  then show ?case by (cases "split_on P s") (auto split: list.splits)
qed

lemma split_on_fields: "\<forall>s\<in>set (split_on P xs). \<forall>c\<in>set s. \<not> P c"
  by (induction xs) (auto split: list.splits)

lemma split_render:
  "slash_free segs \<Longrightarrow> segs \<noteq> [] \<Longrightarrow> split_on is_slash (render segs) = [] # segs"
proof (induction segs)
  case Nil
  then show ?case by simp
next
  case (Cons s segs)
  have s: "\<forall>c\<in>set s. \<not> is_slash c"
    using Cons.prems by (auto simp: slash_free_def is_slash_def)
  have sl: "is_slash (CHR ''/'')" by (simp add: is_slash_def)
  show ?case
  proof (cases "segs = []")
    case True
    with split_on_no_sep [OF s, of "[]"] sl show ?thesis by simp
  next
    case False
    with Cons have "split_on is_slash (render segs) = [] # segs" by (simp add: slash_free_def)
    with split_on_no_sep [OF s, of "render segs"] sl show ?thesis by simp
  qed
qed

lemma last_render:
  assumes "segs \<noteq> []" "slash_free segs"
  shows "is_slash (last (render segs)) = (last segs = [])"
proof -
  from assms(1) have e: "segs = butlast segs @ [last segs]" by simp
  have r: "render segs = render (butlast segs) @ CHR ''/'' # last segs"
    by (subst e) simp
  have "last segs \<in> set segs" using assms(1) by simp
  with assms(2) have nf: "CHR ''/'' \<notin> set (last segs)"
    by (simp add: slash_free_def list_all_iff)
  show ?thesis
  proof (cases "last segs = []")
    case True
    with r show ?thesis by (simp add: is_slash_def)
  next
    case False
    then have "last (last segs) \<in> set (last segs)" by simp
    with nf have "last (last segs) \<noteq> CHR ''/''" by metis
    with r False show ?thesis by (simp add: is_slash_def)
  qed
qed

lemma normalizeString_append:
  "normalizeString a res (xs @ ys) = normalizeString a (normalizeString a res xs) ys"
  by (induction xs arbitrary: res) auto

lemma normalizeString_dot_free:
  "dot_free segs \<Longrightarrow> normalizeString a res segs = res @ filter (\<lambda>s. s \<noteq> []) segs"
  by (induction segs arbitrary: res) (simp_all add: dot_free_def)

lemma join_render: "segs \<noteq> [] \<Longrightarrow> CHR ''/'' # join_with ''/'' segs = render segs"
  by (induction "''/''" segs rule: join_with.induct) simp_all

lemma join_with_empty: "(join_with ''/'' segs = []) = (segs = [] \<or> segs = [[]])"
  by (induction "''/''" segs rule: join_with.induct) simp_all

lemma render_not_Nil: "segs \<noteq> [] \<Longrightarrow> render segs \<noteq> []"
  by (cases segs) simp_all

lemma hd_render: "segs \<noteq> [] \<Longrightarrow> hd (render segs) = CHR ''/''"
  by (cases segs) simp_all

lemma filter_no_empty: "no_empty segs \<Longrightarrow> filter (\<lambda>s. s \<noteq> []) segs = segs"
  by (induction segs) (simp_all add: no_empty_def)

lemma no_empty_filter: "no_empty (filter (\<lambda>s. s \<noteq> []) segs)"
  by (induction segs) (simp_all add: no_empty_def)

lemma join_with_no_empty: "no_empty segs \<Longrightarrow> (join_with ''/'' segs = []) = (segs = [])"
  by (auto simp: join_with_empty no_empty_def)

lemma path_normalize_render:
  assumes "zs \<noteq> []" "slash_free zs" "dot_free zs"
  shows "path_normalize (render zs) =
           (if filter (\<lambda>s. s \<noteq> []) zs = [] then ''/''
            else render (filter (\<lambda>s. s \<noteq> []) zs @ (if last zs = [] then [[]] else [])))"
proof -
  let ?fs = "filter (\<lambda>s. s \<noteq> []) zs"
  have ne: "render zs \<noteq> []" using assms(1) by (rule render_not_Nil)
  have ab: "is_slash (hd (render zs))" using assms(1) by (simp add: hd_render is_slash_def)
  have tr: "is_slash (last (render zs)) = (last zs = [])" using assms(1,2) by (rule last_render)
  have sp: "split_on is_slash (render zs) = [] # zs" using assms(2,1) by (rule split_render)
  have ns: "normalizeString False [] ([] # zs) = ?fs"
    using assms(3) by (simp add: normalizeString_dot_free)
  have q: "(join_with ''/'' ?fs = []) = (?fs = [])"
    by (rule join_with_no_empty) (rule no_empty_filter)
  show ?thesis
  proof (cases "?fs = []")
    case True
    then show ?thesis using ne ab sp ns by (simp add: path_normalize_def Let_def)
  next
    case False
    then have j: "CHR ''/'' # join_with ''/'' ?fs = render ?fs" by (rule join_render)
    have "path_normalize (render zs) =
            (CHR ''/'' # join_with ''/'' ?fs) @ (if last zs = [] then ''/'' else [])"
      using False ne ab tr sp ns q by (simp add: path_normalize_def Let_def)
    with False show ?thesis by (simp add: j)
  qed
qed

lemma normalizeString_clean:
  "no_empty res \<Longrightarrow> dot_free res \<Longrightarrow> slash_free res \<Longrightarrow> slash_free segs \<Longrightarrow>
     no_empty (normalizeString False res segs) \<and> dot_free (normalizeString False res segs) \<and>
     slash_free (normalizeString False res segs)"
proof (induction segs arbitrary: res)
  case Nil
  then show ?case by simp
next
  case (Cons s segs)
  have b: "no_empty (butlast res) \<and> dot_free (butlast res) \<and> slash_free (butlast res)"
    using Cons.prems(1-3)
    by (auto simp: no_empty_def dot_free_def slash_free_def list_all_iff dest: in_set_butlastD)
  have t: "slash_free segs" using Cons.prems(4) by (simp add: slash_free_def)
  show ?case
  proof (cases "s = [] \<or> s = ''.''")
    case True
    with Cons.IH [OF Cons.prems(1-3) t] show ?thesis by auto
  next
    case False
    note nd = False
    show ?thesis
    proof (cases "s = ''..''")
      case True
      with b Cons.IH [of "butlast res"] Cons.IH [OF Cons.prems(1-3) t] t show ?thesis by auto
    next
      case False
      have "no_empty (res @ [s]) \<and> dot_free (res @ [s]) \<and> slash_free (res @ [s])"
        using Cons.prems nd False by (simp add: no_empty_def dot_free_def slash_free_def)
      with Cons.IH [of "res @ [s]"] t nd False show ?thesis by simp
    qed
  qed
qed

lemma slash_free_split: "slash_free (split_on is_slash s)"
  using split_on_fields [of is_slash s]
  by (auto simp: slash_free_def list_all_iff is_slash_def)

lemma path_normalize_absolute:
  assumes "p \<noteq> []" "is_slash (hd p)" "\<not> is_slash (last p)"
    "join_with ''/'' (normalizeString False [] (split_on is_slash p)) \<noteq> []"
  shows "path_normalize p =
           CHR ''/'' # join_with ''/'' (normalizeString False [] (split_on is_slash p))"
  using assms by (simp add: path_normalize_def Let_def)

lemma CLIENT_DIR_form:
  assumes "prefix ''/'' (server_dirname cfg)"
  shows "\<exists>cs. cs \<noteq> [] \<and> no_empty cs \<and> dot_free cs \<and> slash_free cs \<and> CLIENT_DIR cfg = render cs"
proof -
  let ?d = "server_dirname cfg"
  let ?p = "?d @ ''/../../client''"
  let ?X = "normalizeString False [] (split_on is_slash ?d @ [''..'', ''..''])"
  from assms obtain d' where d: "?d = CHR ''/'' # d'" by (cases ?d) simp_all
  have sf: "slash_free (split_on is_slash ?d @ [''..'', ''..''])"
    using slash_free_split [of ?d] by (simp add: slash_free_def)
  have X: "no_empty ?X \<and> dot_free ?X \<and> slash_free ?X"
  proof (rule normalizeString_clean)
    show "no_empty []" by (simp add: no_empty_def)
    show "dot_free []" by (simp add: dot_free_def)
    show "slash_free []" by (simp add: slash_free_def)
    show "slash_free (split_on is_slash ?d @ [''..'', ''..''])" by (rule sf)
  qed
  have sp: "split_on is_slash ?p = (split_on is_slash ?d @ [''..'', ''..'']) @ [''client'']"
  proof -
    have "?p = ?d @ CHR ''/'' # ''../../client''" by simp
    then have "split_on is_slash ?p = split_on is_slash ?d @ split_on is_slash ''../../client''"
      by (simp only: split_on_sep_append [of is_slash "CHR ''/''", unfolded is_slash_def, simplified, folded is_slash_def])
    also have "split_on is_slash ''../../client'' = [''..'', ''..'', ''client'']"
      by (simp add: is_slash_def)
    finally show ?thesis by simp
  qed
  have ns: "normalizeString False [] (split_on is_slash ?p) = ?X @ [''client'']"
    by (simp only: sp normalizeString_append) simp
  have cs: "no_empty (?X @ [''client'']) \<and> dot_free (?X @ [''client'']) \<and>
      slash_free (?X @ [''client''])"
    using X by (simp add: no_empty_def dot_free_def slash_free_def)
  have j: "join_with ''/'' (?X @ [''client'']) \<noteq> []"
    using cs by (simp add: join_with_no_empty)
  have r: "CHR ''/'' # join_with ''/'' (?X @ [''client'']) = render (?X @ [''client''])"
    by (rule join_render) simp
  have jn: "join_with ''/'' [?d, ''..'', ''..'', ''client''] = ?p" by simp
  have "CLIENT_DIR cfg = path_normalize ?p"
    using d by (simp add: CLIENT_DIR_def path_join_def Let_def)
  also have "\<dots> = CHR ''/'' # join_with ''/'' (?X @ [''client''])"
  proof -
    have 1: "?p \<noteq> []" by simp
    have 2: "is_slash (hd ?p)" using d by (simp add: is_slash_def)
    have 3: "\<not> is_slash (last ?p)" by (simp add: is_slash_def)
    have 4: "join_with ''/'' (normalizeString False [] (split_on is_slash ?p)) \<noteq> []"
      unfolding ns by (rule j)
    from path_normalize_absolute [OF 1 2 3 4] show ?thesis unfolding ns .
  qed
  finally have "CLIENT_DIR cfg = render (?X @ [''client''])" by (simp only: r)
  with cs show ?thesis by blast
qed

lemma single_dot_is: "is_single_dot ''.''"
  by (simp add: is_single_dot_def toLowerCase_def lower_char_def)

lemma double_dot_is: "is_double_dot ''..''"
  by (simp add: is_double_dot_def toLowerCase_def lower_char_def)

lemma path_state_not_Nil: "segs \<noteq> [] \<Longrightarrow> path_state acc segs \<noteq> []"
proof (induction segs arbitrary: acc)
  case Nil
  then show ?case by simp
next
  case (Cons s segs)
  show ?case
  proof (cases "segs = []")
    case True
    then show ?thesis by simp
  next
    case False
    with Cons.IH show ?thesis by simp
  qed
qed

lemma path_state_fields:
  "slash_free acc \<Longrightarrow> dot_free acc \<Longrightarrow> slash_free segs \<Longrightarrow>
     slash_free (path_state acc segs) \<and> dot_free (path_state acc segs)"
proof (induction segs arbitrary: acc)
  case Nil
  then show ?case by simp
next
  case (Cons s segs)
  have b: "slash_free (butlast acc) \<and> dot_free (butlast acc)"
    using Cons.prems(1,2)
    by (auto simp: dot_free_def slash_free_def list_all_iff dest: in_set_butlastD)
  have t: "slash_free segs" and s: "CHR ''/'' \<notin> set s"
    using Cons.prems(3) by (simp_all add: slash_free_def)
  show ?case
  proof (cases "is_double_dot s")
    case True
    have "slash_free (butlast acc @ (if segs = [] then [[]] else [])) \<and>
          dot_free (butlast acc @ (if segs = [] then [[]] else []))"
      using b by (simp add: slash_free_def dot_free_def)
    with Cons.IH [of "butlast acc @ (if segs = [] then [[]] else [])"] t True
    show ?thesis by simp
  next
    case False
    note nd = False
    show ?thesis
    proof (cases "is_single_dot s")
      case True
      have "slash_free (acc @ (if segs = [] then [[]] else [])) \<and>
            dot_free (acc @ (if segs = [] then [[]] else []))"
        using Cons.prems(1,2) by (simp add: slash_free_def dot_free_def)
      with Cons.IH [of "acc @ (if segs = [] then [[]] else [])"] t True nd
      show ?thesis by simp
    next
      case False
      from nd have "s \<noteq> ''..''" using double_dot_is by auto
      moreover from False have "s \<noteq> ''.''" using single_dot_is by auto
      ultimately have "slash_free (acc @ [s]) \<and> dot_free (acc @ [s])"
        using Cons.prems(1,2) s by (simp add: slash_free_def dot_free_def)
      with Cons.IH [of "acc @ [s]"] t False nd show ?thesis by simp
    qed
  qed
qed

lemma url_pathname_form:
  "\<exists>ps. ps \<noteq> [] \<and> slash_free ps \<and> dot_free ps \<and> url_pathname raw = render ps"
proof -
  let ?after = "case raw of [] \<Rightarrow> [] | c # cs \<Rightarrow> if is_url_sep c then cs else raw"
  let ?ps = "path_state [] (split_on is_url_sep ?after)"
  have sf: "slash_free (split_on is_url_sep ?after)"
    using split_on_fields [of is_url_sep ?after]
    by (auto simp: slash_free_def list_all_iff is_url_sep_def)
  have 1: "?ps \<noteq> []" by (rule path_state_not_Nil) simp
  have 2: "slash_free ?ps \<and> dot_free ?ps"
    by (rule path_state_fields) (simp_all add: slash_free_def dot_free_def sf [unfolded slash_free_def])
  have 3: "url_pathname raw = render ?ps" by (simp add: url_pathname_def render_def Let_def)
  from 1 2 3 show ?thesis by blast
qed

lemma resolved_form:
  assumes cs: "cs \<noteq> []" "no_empty cs" "dot_free cs" "slash_free cs"
    and ps: "ps \<noteq> []" "slash_free ps" "dot_free ps"
  shows "\<exists>zs. zs \<noteq> [] \<and> slash_free zs \<and> dot_free zs \<and>
           path_normalize (path_join [render cs, render ps]) = render cs @ render zs"
proof -
  let ?f = "filter (\<lambda>s. s \<noteq> []) ps"
  let ?trail = "if last ps = [] then [[]] else []"
  let ?zs = "cs @ [] # ps"
  let ?r = "cs @ ?f @ ?trail"
  have zs: "?zs \<noteq> []" "slash_free ?zs" "dot_free ?zs"
    using cs ps by (simp_all add: slash_free_def dot_free_def)
  have fz: "filter (\<lambda>s. s \<noteq> []) ?zs = cs @ ?f"
    using cs(2) by (simp add: filter_no_empty)
  have lz: "last ?zs = last ps" using ps(1) by simp
  have j: "path_join [render cs, render ps] = path_normalize (render ?zs)"
    using cs(1) ps(1) by (simp add: path_join_def Let_def render_not_Nil)
  have n1: "path_normalize (render ?zs) = render ?r"
    using path_normalize_render [OF zs] cs(1) by (simp only: fz lz) simp
  have r: "?r \<noteq> []" "slash_free ?r" "dot_free ?r"
    using cs ps by (auto simp: slash_free_def dot_free_def list_all_iff)
  have nf: "no_empty ?f" by (rule no_empty_filter)
  have fr: "filter (\<lambda>s. s \<noteq> []) ?r = cs @ ?f"
    using cs(2) nf by (simp add: filter_no_empty)
  have lne: "last (cs @ ?f) \<noteq> []"
  proof -
    have "last (cs @ ?f) \<in> set (cs @ ?f)" using cs(1) by (intro last_in_set) simp
    then show ?thesis using cs(2) nf by (auto simp: no_empty_def list_all_iff)
  qed
  have lr: "(last ?r = []) = (last ps = [])"
  proof (cases "last ps = []")
    case True
    then show ?thesis by simp
  next
    case False
    then have "last ?r = last (cs @ ?f)" by simp
    with lne False show ?thesis by simp
  qed
  have n2: "path_normalize (render ?r) = render ?r"
    using path_normalize_render [OF r] cs(1) by (simp only: fr lr) simp
  have tail: "?f @ ?trail \<noteq> []"
  proof (cases "last ps = []")
    case True
    then show ?thesis by simp
  next
    case False
    moreover have "last ps \<in> set ps" using ps(1) by simp
    ultimately have "?f \<noteq> []" by (auto simp: filter_empty_conv)
    then show ?thesis by simp
  qed
  have fields: "slash_free (?f @ ?trail)" "dot_free (?f @ ?trail)"
    using ps by (auto simp: slash_free_def dot_free_def list_all_iff)
  have e: "render ?r = render cs @ render (?f @ ?trail)" by simp
  have "path_normalize (path_join [render cs, render ps]) = render ?r"
    unfolding j n1 n2 ..
  from this e have "path_normalize (path_join [render cs, render ps]) =
      render cs @ render (?f @ ?trail)"
    by (rule trans)
  with tail fields show ?thesis by blast
qed

lemma static_branch:
  assumes "prefix ''/'' (server_dirname cfg)" "req_method req \<noteq> ''OPTIONS''"
    "\<not> prefix ''/api/'' (url_pathname (req_path req))"
  shows "\<exists>p. under_root (CLIENT_DIR cfg) p \<and> (\<forall>w. server cfg w req = serveStatic w p)"
proof -
  let ?pathname = "url_pathname (req_path req)"
  let ?safe = "if ?pathname = ''/'' \<or> ?pathname = [] then ''/index.html'' else ?pathname"
  from CLIENT_DIR_form [OF assms(1)] obtain cs where
    cs: "cs \<noteq> []" "no_empty cs" "dot_free cs" "slash_free cs" and C: "CLIENT_DIR cfg = render cs"
    by blast
  from url_pathname_form [of "req_path req"] obtain ps where
    ps: "ps \<noteq> []" "slash_free ps" "dot_free ps" and P: "?pathname = render ps"
    by blast
  have "\<exists>qs. qs \<noteq> [] \<and> slash_free qs \<and> dot_free qs \<and> ?safe = render qs"
  proof (cases "?pathname = ''/'' \<or> ?pathname = []")
    case True
    then have e: "?safe = render [''index.html'']" by simp
    have "[''index.html''] \<noteq> [] \<and> slash_free [''index.html''] \<and> dot_free [''index.html'']"
      by (simp add: slash_free_def dot_free_def)
    with e show ?thesis by blast
  next
    case False
    with ps P show ?thesis by auto
  qed
  then obtain qs where qs: "qs \<noteq> []" "slash_free qs" "dot_free qs" and S: "?safe = render qs"
    by blast
  from resolved_form [OF cs qs] obtain zs where
    zs: "zs \<noteq> []" "slash_free zs" "dot_free zs" and
    R: "path_normalize (path_join [render cs, render qs]) = render cs @ render zs"
    by blast
  let ?p = "render cs @ render zs"
  have res: "path_normalize (path_join [CLIENT_DIR cfg, ?safe]) = ?p"
    by (simp only: C S R)
  from zs(1) obtain z zs' where z: "zs = z # zs'" by (cases zs) simp_all
  have pre: "prefix (CLIENT_DIR cfg @ ''/'') ?p" by (simp add: C z)
  have pre0: "prefix (CLIENT_DIR cfg) ?p" by (simp add: C)
  have all: "cs @ zs \<noteq> []" "slash_free (cs @ zs)" "dot_free (cs @ zs)"
    using cs zs by (simp_all add: slash_free_def dot_free_def)
  have "split_on is_slash ?p = [] # cs @ zs"
    using split_render [OF all(2) all(1)] by simp
  then have df: "dot_free (split_on is_slash ?p)"
    using all(3) by (simp add: dot_free_def)
  have under: "under_root (CLIENT_DIR cfg) ?p"
    using pre df by (simp add: under_root_def)
  have "server cfg w req = serveStatic w ?p" for w
    using assms(2,3) pre0 unfolding server_def Let_def res by simp
  with under show ?thesis by blast
qed

lemma serveStatic_status: "status (serveStatic w p) \<in> {200, 404, 500}"
  by (simp add: serveStatic_def Let_def split: sum.splits)

lemma serveStatic_reads_one_file: "readFile w' p = readFile w p \<Longrightarrow> serveStatic w' p = serveStatic w p"
  by (simp add: serveStatic_def)

text \<open>
  C3, as the code has it. With the absolute \<open>__dirname\<close> that Node provides, every
  request that reaches the static branch is answered by serving one file whose path lies
  under the asset root: it begins with the root and a slash, and none of its fields is
  \<open>.\<close> or \<open>..\<close>, since the URL parser has removed every such field (also
  percent-encoded) before the path is resolved. The 403 branch is never taken, and the
  response does not depend on any file that does not lie under the asset root.
\<close>

theorem static_files_stay_under_root:
  "prefix ''/'' (server_dirname cfg) \<and> req_method req \<noteq> ''OPTIONS'' \<and>
   \<not> prefix ''/api/'' (url_pathname (req_path req)) \<longrightarrow>
     (\<exists>p. under_root (CLIENT_DIR cfg) p \<and> server cfg w req = serveStatic w p) \<and>
     status (server cfg w req) \<noteq> 403 \<and>
     (\<forall>w'. (\<forall>p. under_root (CLIENT_DIR cfg) p \<longrightarrow> readFile w' p = readFile w p) \<longrightarrow>
        server cfg w' req = server cfg w req)"
proof
  assume a: "prefix ''/'' (server_dirname cfg) \<and> req_method req \<noteq> ''OPTIONS'' \<and>
   \<not> prefix ''/api/'' (url_pathname (req_path req))"
  then obtain p where p: "under_root (CLIENT_DIR cfg) p"
    and s: "\<And>w. server cfg w req = serveStatic w p"
    using static_branch [of cfg req] by blast
  have 1: "\<exists>p. under_root (CLIENT_DIR cfg) p \<and> server cfg w req = serveStatic w p"
    using p s by blast
  have 2: "status (server cfg w req) \<noteq> 403"
    using serveStatic_status [of w p] by (auto simp: s)
  have 3: "server cfg w' req = server cfg w req"
    if "\<forall>p. under_root (CLIENT_DIR cfg) p \<longrightarrow> readFile w' p = readFile w p" for w'
  proof -
    from that p have "readFile w' p = readFile w p" by blast
    then show ?thesis unfolding s by (rule serveStatic_reads_one_file)
  qed
  from 1 2 3 show "(\<exists>p. under_root (CLIENT_DIR cfg) p \<and> server cfg w req = serveStatic w p) \<and>
     status (server cfg w req) \<noteq> 403 \<and>
     (\<forall>w'. (\<forall>p. under_root (CLIENT_DIR cfg) p \<longrightarrow> readFile w' p = readFile w p) \<longrightarrow>
        server cfg w' req = server cfg w req)"
    by blast
qed

theorem static_files_stay_under_root_witness:
  "(\<exists>p. under_root (CLIENT_DIR sample_config) p \<and>
        server sample_config sample_world traversal = serveStatic sample_world p) \<and>
   status (server sample_config sample_world traversal) \<noteq> 403 \<and>
   server sample_config with_passwd traversal = server sample_config sample_world traversal"
proof -
  have h: "prefix ''/'' (server_dirname sample_config) \<and> req_method traversal \<noteq> ''OPTIONS'' \<and>
      \<not> prefix ''/api/'' (url_pathname (req_path traversal))"
    by code_simp
  have c: "CLIENT_DIR sample_config = ''/srv/app/client''" by code_simp
  have r: "\<forall>p. under_root (CLIENT_DIR sample_config) p \<longrightarrow>
      readFile with_passwd p = readFile sample_world p"
    unfolding c by (auto simp: with_passwd_def under_root_def)
  from static_files_stay_under_root
    [where cfg = sample_config and req = traversal and w = sample_world] h r
  show ?thesis by blast
qed

text \<open>C3 as stated fails on a traversal request: the request path resolved against the
  asset root leaves the root, and the answer is 404 (for the file of that name inside
  the root), not 403.\<close>

theorem traversal_request_not_forbidden:
  "\<not> prefix (CLIENT_DIR sample_config)
       (path_normalize (path_join [CLIENT_DIR sample_config, ''/../../etc/passwd''])) \<and>
   server sample_config sample_world
     \<lparr> req_method = ''GET'', req_path = ''/../../etc/passwd'', req_user = None \<rparr> =
     \<lparr> status = 404, headers = [], body = Raw ''Not Found'' \<rparr> \<and>
   status (server sample_config sample_world
     \<lparr> req_method = ''GET'', req_path = ''/../../etc/passwd'', req_user = None \<rparr>) \<noteq> 403"
  by code_simp

subsection \<open>Further properties\<close>

text \<open>
  X1. A response outside 2xx is returned as a value: the GitHub adapter and the weather
  adapter return \<open>{error, details}\<close> with the status in the error text and the body of the
  response as details.
\<close>

theorem remote_error_values:
  "(github_user cfg username \<noteq> [] \<and>
    fetch w (github_request cfg (github_user cfg username)) = Inr (Response code (Inr msg) j) \<and>
    (code < 200 \<or> 299 < code) \<longrightarrow>
      getGithubRepos cfg w username =
        Inr (JObj [(''error'', JStr (''GitHub API error: '' @ show_nat code)),
                   (''details'', JStr msg)])) \<and>
   (WEATHER_LAT cfg \<noteq> [] \<and> WEATHER_LON cfg \<noteq> [] \<and>
    fetch w (weather_request cfg) = Inr (Response code' (Inr msg') j') \<and>
    (code' < 200 \<or> 299 < code') \<longrightarrow>
      getWeather cfg w =
        Inr (JObj [(''error'', JStr (''Weather API error: '' @ show_nat code')),
                   (''details'', JStr msg')]))"
  by (auto simp: getGithubRepos_def github_respond_def getWeather_def response_ok_def)

theorem remote_error_values_witness:
  "getGithubRepos sample_config github_forbidden None =
     Inr (JObj [(''error'', JStr ''GitHub API error: 403''),
                (''details'', JStr ''rate limit exceeded'')])"
proof -
  have a: "github_user sample_config None \<noteq> [] \<and>
    fetch github_forbidden (github_request sample_config (github_user sample_config None)) =
      Inr (Response 403 (Inr ''rate limit exceeded'')
             (Inl (Error ''Unexpected token r in JSON at position 0''))) \<and>
    ((403::nat) < 200 \<or> 299 < (403::nat))"
    by code_simp
  have s: "show_nat 403 = ''403''" by code_simp
  from a remote_error_values
    [where cfg = sample_config and w = github_forbidden and username = None and code = 403
       and msg = "''rate limit exceeded''"
       and j = "Inl (Error ''Unexpected token r in JSON at position 0'')"]
  have "getGithubRepos sample_config github_forbidden None =
        Inr (JObj [(''error'', JStr (''GitHub API error: '' @ show_nat 403)),
                   (''details'', JStr ''rate limit exceeded'')])"
    by blast
  then show ?thesis by (simp add: s)
qed

text \<open>
  X2. Whenever the GitHub adapter and the weather adapter return a value, be it a
  success or an error shape, \<open>buildDashboard\<close> returns the composite of the system
  snapshot, those two values, the uptime and the motivation; the disk adapter's result,
  success or error shape, is the \<open>disk\<close> field of the system snapshot.
\<close>

theorem dashboard_composite:
  "getGithubRepos cfg w username = Inr g \<and> getWeather cfg w = Inr x \<longrightarrow>
     buildDashboard cfg w username =
       Inr (JObj
         [(''system'', getSystemStats w),
          (''github'', g),
          (''weather'', x),
          (''uptime'', getUptime w),
          (''motivation'', getMotivation (now w))]) \<and>
     get_prop (getSystemStats w) ''disk'' = Inr (getDiskUsage w)"
  by (simp add: buildDashboard_def getSystemStats_def Let_def)

theorem dashboard_composite_witness:
  "buildDashboard sample_config github_forbidden None =
     Inr (JObj
       [(''system'', getSystemStats github_forbidden),
        (''github'',
           JObj [(''error'', JStr ''GitHub API error: 403''),
                 (''details'', JStr ''rate limit exceeded'')]),
        (''weather'',
           JObj
             [(''temperature'', JNum (Fin 21)),
              (''windSpeed'', JNum (Fin 7)),
              (''weatherCode'', JNum (Fin 3)),
              (''time'', JStr ''2024-05-01T12:00''),
              (''timezone'', JStr ''GMT''),
              (''apparentTemperature'', JNum (Fin 20)),
              (''humidity'', JNum (Fin 55))]),
        (''uptime'', getUptime github_forbidden),
        (''motivation'', getMotivation (now github_forbidden))]) \<and>
   get_prop (getSystemStats github_forbidden) ''disk'' = Inr (getDiskUsage github_forbidden)"
proof -
  have g: "getGithubRepos sample_config github_forbidden None =
      Inr (JObj [(''error'', JStr ''GitHub API error: 403''),
                 (''details'', JStr ''rate limit exceeded'')])"
    by code_simp
  have x: "getWeather sample_config github_forbidden =
      Inr (JObj
             [(''temperature'', JNum (Fin 21)),
              (''windSpeed'', JNum (Fin 7)),
              (''weatherCode'', JNum (Fin 3)),
              (''time'', JStr ''2024-05-01T12:00''),
              (''timezone'', JStr ''GMT''),
              (''apparentTemperature'', JNum (Fin 20)),
              (''humidity'', JNum (Fin 55))])"
    by code_simp
  from g x dashboard_composite [where cfg = sample_config and w = github_forbidden and username = None]
  show ?thesis by blast
qed

text \<open>
  X3. A file that can be read is served with status 200, its bytes as the body, their
  number as the length and the content type of its extension (compared in lower case);
  a missing file gives 404 and any other read failure 500.
\<close>

theorem static_file_responses:
  "(readFile w p = Inr data \<longrightarrow>
      serveStatic w p =
        \<lparr> status = 200,
          headers = [(''Content-Type'', HStr (content_type_of p)),
                     (''Content-Length'', HNum (length data))],
          body = Raw data \<rparr>) \<and>
   (readFile w p = Inl ENOENT \<longrightarrow>
      serveStatic w p = \<lparr> status = 404, headers = [], body = Raw ''Not Found'' \<rparr>) \<and>
   (readFile w p = Inl OtherFsError \<longrightarrow>
      serveStatic w p = \<lparr> status = 500, headers = [], body = Raw ''Server Error'' \<rparr>) \<and>
   content_type_of ''/srv/app/client/index.html'' = ''text/html'' \<and>
   content_type_of ''/srv/app/client/styles.CSS'' = ''text/css'' \<and>
   content_type_of ''/srv/app/client/main.js'' = ''application/javascript'' \<and>
   content_type_of ''/srv/app/client/data.json'' = ''application/json'' \<and>
   content_type_of ''/srv/app/client/logo.svg'' = ''image/svg+xml'' \<and>
   content_type_of ''/srv/app/client/photo.png'' = ''application/octet-stream''"
proof -
  have c: "content_type_of ''/srv/app/client/index.html'' = ''text/html'' \<and>
   content_type_of ''/srv/app/client/styles.CSS'' = ''text/css'' \<and>
   content_type_of ''/srv/app/client/main.js'' = ''application/javascript'' \<and>
   content_type_of ''/srv/app/client/data.json'' = ''application/json'' \<and>
   content_type_of ''/srv/app/client/logo.svg'' = ''image/svg+xml'' \<and>
   content_type_of ''/srv/app/client/photo.png'' = ''application/octet-stream''"
    by code_simp
  have s: "(readFile w p = Inr data \<longrightarrow>
      serveStatic w p =
        \<lparr> status = 200,
          headers = [(''Content-Type'', HStr (content_type_of p)),
                     (''Content-Length'', HNum (length data))],
          body = Raw data \<rparr>) \<and>
   (readFile w p = Inl ENOENT \<longrightarrow>
      serveStatic w p = \<lparr> status = 404, headers = [], body = Raw ''Not Found'' \<rparr>) \<and>
   (readFile w p = Inl OtherFsError \<longrightarrow>
      serveStatic w p = \<lparr> status = 500, headers = [], body = Raw ''Server Error'' \<rparr>)"
    by (simp add: serveStatic_def content_type_of_def Let_def)
  from c s show ?thesis by blast
qed

theorem static_file_responses_witness:
  "serveStatic sample_world ''/srv/app/client/index.html'' =
     \<lparr> status = 200,
       headers = [(''Content-Type'', HStr (content_type_of ''/srv/app/client/index.html'')),
                  (''Content-Length'', HNum (length ''<!doctype html>''))],
       body = Raw ''<!doctype html>'' \<rparr> \<and>
   serveStatic sample_world ''/srv/app/client/missing.css'' =
     \<lparr> status = 404, headers = [], body = Raw ''Not Found'' \<rparr> \<and>
   serveStatic unreadable ''/srv/app/client/index.html'' =
     \<lparr> status = 500, headers = [], body = Raw ''Server Error'' \<rparr>"
proof -
  have a: "readFile sample_world ''/srv/app/client/index.html'' = Inr ''<!doctype html>''"
    by code_simp
  have b: "readFile sample_world ''/srv/app/client/missing.css'' = Inl ENOENT"
    by code_simp
  have c: "readFile unreadable ''/srv/app/client/index.html'' = Inl OtherFsError"
    by code_simp
  from a static_file_responses
    [where w = sample_world and p = "''/srv/app/client/index.html''" and data = "''<!doctype html>''"]
  have 1: "serveStatic sample_world ''/srv/app/client/index.html'' =
     \<lparr> status = 200,
       headers = [(''Content-Type'', HStr (content_type_of ''/srv/app/client/index.html'')),
                  (''Content-Length'', HNum (length ''<!doctype html>''))],
       body = Raw ''<!doctype html>'' \<rparr>"
    by blast
  from b static_file_responses
    [where w = sample_world and p = "''/srv/app/client/missing.css''"]
  have 2: "serveStatic sample_world ''/srv/app/client/missing.css'' =
     \<lparr> status = 404, headers = [], body = Raw ''Not Found'' \<rparr>"
    by blast
  from c static_file_responses
    [where w = unreadable and p = "''/srv/app/client/index.html''"]
  have 3: "serveStatic unreadable ''/srv/app/client/index.html'' =
     \<lparr> status = 500, headers = [], body = Raw ''Server Error'' \<rparr>"
    by blast
  from 1 2 3 show ?thesis by blast
qed

end
